theory Spec2Isabelle
  imports Complex_Main
begin

section \<open>Floating-point values\<close>

text \<open>
  A tensor element is a floating-point number.  The optimizer's control flow depends on
  the special values (it tests for NaN, replaces NaN by +infinity and compares against
  thresholds), so these are modelled explicitly.  Finite values are idealised as reals:
  rounding and overflow are not modelled.  Comparisons follow IEEE 754: every comparison
  with NaN is false.
\<close>

datatype fp = NaN | NInf | Fin real | PInf

fun isnan :: "fp \<Rightarrow> bool" where
  "isnan NaN = True"
| "isnan _ = False"

fun fp_lt :: "fp \<Rightarrow> fp \<Rightarrow> bool" where
  "fp_lt NaN _ = False"
| "fp_lt _ NaN = False"
| "fp_lt _ NInf = False"
| "fp_lt PInf _ = False"
| "fp_lt NInf _ = True"
| "fp_lt (Fin a) PInf = True"
| "fp_lt (Fin a) (Fin b) = (a < b)"

fun fp_le :: "fp \<Rightarrow> fp \<Rightarrow> bool" where
  "fp_le NaN _ = False"
| "fp_le _ NaN = False"
| "fp_le NInf _ = True"
| "fp_le _ PInf = True"
| "fp_le _ NInf = False"
| "fp_le PInf _ = False"
| "fp_le (Fin a) (Fin b) = (a \<le> b)"

definition fp_ge :: "fp \<Rightarrow> fp \<Rightarrow> bool" where
  "fp_ge a b = fp_le b a"

fun fp_neg :: "fp \<Rightarrow> fp" where
  "fp_neg NaN = NaN"
| "fp_neg NInf = PInf"
| "fp_neg PInf = NInf"
| "fp_neg (Fin a) = Fin (- a)"

fun fp_add :: "fp \<Rightarrow> fp \<Rightarrow> fp" where
  "fp_add NaN _ = NaN"
| "fp_add _ NaN = NaN"
| "fp_add PInf NInf = NaN"
| "fp_add NInf PInf = NaN"
| "fp_add PInf _ = PInf"
| "fp_add _ PInf = PInf"
| "fp_add NInf _ = NInf"
| "fp_add _ NInf = NInf"
| "fp_add (Fin a) (Fin b) = Fin (a + b)"

text \<open>The sign of an infinity times a finite factor; zero times infinity is NaN.\<close>

definition inf_times :: "bool \<Rightarrow> real \<Rightarrow> fp" where
  "inf_times positive a =
     (if a = 0 then NaN else if (0 < a) = positive then PInf else NInf)"

fun fp_mul :: "fp \<Rightarrow> fp \<Rightarrow> fp" where
  "fp_mul NaN _ = NaN"
| "fp_mul _ NaN = NaN"
| "fp_mul PInf PInf = PInf"
| "fp_mul PInf NInf = NInf"
| "fp_mul NInf PInf = NInf"
| "fp_mul NInf NInf = PInf"
| "fp_mul PInf (Fin a) = inf_times True a"
| "fp_mul (Fin a) PInf = inf_times True a"
| "fp_mul NInf (Fin a) = inf_times False a"
| "fp_mul (Fin a) NInf = inf_times False a"
| "fp_mul (Fin a) (Fin b) = Fin (a * b)"

text \<open>Division by a count (used for the mean); \<open>0 / 0\<close> is NaN.\<close>

fun fp_div_count :: "fp \<Rightarrow> nat \<Rightarrow> fp" where
  "fp_div_count NaN n = NaN"
| "fp_div_count PInf n = PInf"
| "fp_div_count NInf n = NInf"
| "fp_div_count (Fin a) n =
     (if n = 0 then (if a = 0 then NaN else if 0 < a then PInf else NInf)
      else Fin (a / real n))"


section \<open>Tensors and errors\<close>

text \<open>
  A tensor is its shape and its elements in row-major order.  \<open>reshape\<close> keeps the
  elements and raises when the element counts differ, as \<open>Tensor.reshape\<close> does.
\<close>

datatype tensor = Tensor (shape: "nat list") (elems: "fp list")

datatype error =
    ValueError string
  | RuntimeError string
  | IndexError
  | ShapeError
  | TypeError
  | LinAlgError

definition numel :: "tensor \<Rightarrow> nat" where
  "numel t = length (elems t)"

definition reshape :: "nat list \<Rightarrow> tensor \<Rightarrow> error + tensor" where
  "reshape s t = (if prod_list s = numel t then Inr (Tensor s (elems t)) else Inl ShapeError)"

definition any_nan :: "tensor \<Rightarrow> bool" where
  "any_nan t = list_ex isnan (elems t)"

section \<open>The Hessian regularizer\<close>

subsection \<open>Escalation loop: \<open>_positive_factorization_cholesky\<close>\<close>

text \<open>
  \<open>H_reg.diagonal(dim1=-2, dim2=-1)[:] += reg\<close>: the shift is added to every diagonal
  entry of every matrix of the batch.  A tensor with fewer than two dimensions has no
  diagonal and the call raises.
\<close>

definition add_diag :: "tensor \<Rightarrow> fp \<Rightarrow> error + tensor" where
  "add_diag H reg =
     (case rev (shape H) of
        c # r # _ \<Rightarrow>
          Inr (Tensor (shape H)
            (map (\<lambda>(k, v). if (k mod (r * c)) div c = (k mod (r * c)) mod c
                             then fp_add v reg else v)
               (zip [0..<length (elems H)] (elems H))))
      | _ \<Rightarrow> Inl IndexError)"

text \<open>
  One pass through the body of the \<open>try\<close> block.  \<open>chol\<close> stands for
  \<open>torch.linalg.cholesky\<close>, which raises on a matrix that is not positive definite.
  Every exception of the block, the failed assertion on a NaN factor included, is caught
  by the same handler, so an attempt either yields a factor or fails.
\<close>

definition cholesky_attempt ::
  "(tensor \<Rightarrow> error + tensor) \<Rightarrow> tensor \<Rightarrow> fp \<Rightarrow> tensor option" where
  "cholesky_attempt chol H reg =
     (case add_diag H reg of
        Inl e \<Rightarrow> None
      | Inr H_reg \<Rightarrow>
          (case chol H_reg of
             Inl e \<Rightarrow> None
           | Inr F \<Rightarrow> if any_nan F then None else Some F))"

text \<open>
  The \<open>while True\<close> loop.  The result is \<open>None\<close> when the loop never exits,
  \<open>Some (Inl e)\<close> when it raises and \<open>Some (Inr (F, (reg_it, reg)))\<close> when it returns.
\<close>

partial_function (option) positive_factorization_cholesky_loop ::
  "(tensor \<Rightarrow> error + tensor) \<Rightarrow> tensor \<Rightarrow> fp \<Rightarrow> nat \<Rightarrow>
     (error + tensor \<times> nat \<times> fp) option" where
  "positive_factorization_cholesky_loop chol H reg reg_it =
     (case cholesky_attempt chol H reg of
        Some F \<Rightarrow> Some (Inr (F, reg_it, reg))
      | None \<Rightarrow>
          (if fp_ge (fp_mul reg (Fin 5)) (Fin 9900000)
           then Some (Inl (RuntimeError ''Numerical problems''))
           else positive_factorization_cholesky_loop chol H (fp_mul reg (Fin 5)) (reg_it + 1)))"

definition positive_factorization_cholesky ::
  "(tensor \<Rightarrow> error + tensor) \<Rightarrow> tensor \<Rightarrow> fp \<Rightarrow> (error + tensor \<times> nat \<times> fp) option" where
  "positive_factorization_cholesky chol H reg0 =
     positive_factorization_cholesky_loop chol H reg0 0"


subsection \<open>Library functions\<close>

text \<open>
  The linear algebra of the \<open>torch\<close> library is not part of the repository; the model
  takes it as a parameter.  Each field stands for one call as the source writes it:
  \<^item> \<open>linalg_cholesky\<close>: \<open>torch.linalg.cholesky(H_reg)\<close>;
  \<^item> \<open>cholesky_solve\<close>: \<open>torch.cholesky_solve(b[..., None], F)[..., 0]\<close>;
  \<^item> \<open>linalg_eigvals_real\<close>: \<open>torch.linalg.eigvals(A).real\<close>;
  \<^item> \<open>lobpcg\<close>: \<open>torch.lobpcg(H, k=1, largest=False, niter=100, tol=1e-3)[0]\<close>;
  \<^item> \<open>norm_trailing\<close>: \<open>torch.norm(d, dim=tuple(range(-(d.ndim - 1), 0)))\<close>.
\<close>

record torch =
  linalg_cholesky :: "tensor \<Rightarrow> error + tensor"
  cholesky_solve :: "tensor \<Rightarrow> tensor \<Rightarrow> error + tensor"
  linalg_eigvals_real :: "tensor \<Rightarrow> error + fp list"
  lobpcg :: "tensor \<Rightarrow> error + tensor"
  norm_trailing :: "tensor \<Rightarrow> fp list"

text \<open>
  The order of torch's \<open>min\<close> and \<open>argmin\<close> reductions: NaN counts as smaller than
  every number, and among equal values the earlier one wins.  \<open>less_or_nan a b\<close> says
  that a later element \<open>a\<close> replaces the current minimum \<open>b\<close>.
\<close>

definition less_or_nan :: "fp \<Rightarrow> fp \<Rightarrow> bool" where
  "less_or_nan a b = (if isnan a then \<not> isnan b else fp_lt a b)"

definition torch_min :: "fp list \<Rightarrow> error + fp" where
  "torch_min xs =
     (case xs of
        [] \<Rightarrow> Inl (RuntimeError ''min(): Expected reduction dim to be specified for input.numel() == 0'')
      | v # vs \<Rightarrow> Inr (fold (\<lambda>a b. if less_or_nan a b then a else b) vs v))"

text \<open>Python's built-in \<open>max(a, b)\<close>: the second argument wins only when it is greater.\<close>

definition py_max :: "fp \<Rightarrow> fp \<Rightarrow> fp" where
  "py_max a b = (if fp_lt a b then b else a)"

subsection \<open>Initial shift: \<open>_positive_factorization_lobpcg\<close>\<close>

text \<open>
  The estimate of the lowest eigenvalue.  Below dimension 3 the Hessian is reshaped to a
  single \<open>n \<times> n\<close> matrix before the eigendecomposition; otherwise the iterative
  estimator is called on the whole batch and \<open>reg.reshape(-1)[0]\<close> keeps its first entry.
\<close>

definition min_eigenvalue_estimate :: "torch \<Rightarrow> tensor \<Rightarrow> error + fp" where
  "min_eigenvalue_estimate T H =
     (case rev (shape H) of
        [] \<Rightarrow> Inl IndexError
      | n # _ \<Rightarrow>
          if n < 3 then
            (case reshape [n, n] H of
               Inl e \<Rightarrow> Inl e
             | Inr A \<Rightarrow>
                 (case linalg_eigvals_real T A of
                    Inl e \<Rightarrow> Inl e
                  | Inr ev \<Rightarrow> torch_min ev))
          else
            (case lobpcg T H of
               Inl e \<Rightarrow> Inl e
             | Inr E \<Rightarrow>
                 (case elems E of
                    [] \<Rightarrow> Inl IndexError
                  | v # _ \<Rightarrow> Inr v)))"

definition initial_shift :: "fp \<Rightarrow> fp \<Rightarrow> fp" where
  "initial_shift reg reg0 = py_max (py_max (fp_mul (Fin (- 2)) reg) (Fin 0)) reg0"

definition positive_factorization_lobpcg ::
  "torch \<Rightarrow> tensor \<Rightarrow> fp \<Rightarrow> (error + tensor \<times> nat \<times> fp) option" where
  "positive_factorization_lobpcg T H reg0 =
     (case min_eigenvalue_estimate T H of
        Inl e \<Rightarrow> Some (Inl e)
      | Inr reg \<Rightarrow>
          positive_factorization_cholesky (linalg_cholesky T) H (initial_shift reg reg0))"

section \<open>The line search: \<open>_linesearch\<close>\<close>

text \<open>\<open>torch.linspace(start, end, steps)\<close> for at least two steps.\<close>

definition linspace :: "real \<Rightarrow> real \<Rightarrow> nat \<Rightarrow> real list" where
  "linspace a b n = map (\<lambda>i. a + (b - a) * real i / real (n - 1)) [0..<n]"

text \<open>The candidate multipliers \<open>bets\<close>.\<close>

definition ls_candidates :: "int \<Rightarrow> fp list" where
  "ls_candidates ls_pts_nb =
     (if ls_pts_nb \<ge> 2 then map (\<lambda>e. Fin (10 powr e)) (linspace (- 1) 1 (nat ls_pts_nb))
      else [Fin 1])"

text \<open>\<open>x + bet * d\<close> for a scalar \<open>bet\<close>; \<open>d\<close> has the shape of \<open>x\<close>.\<close>

definition axpy :: "tensor \<Rightarrow> fp \<Rightarrow> tensor \<Rightarrow> tensor" where
  "axpy x bet d =
     Tensor (shape x) (map2 (\<lambda>a b. fp_add a (fp_mul bet b)) (elems x) (elems d))"

definition nan_to_inf :: "fp \<Rightarrow> fp" where
  "nan_to_inf v = (if isnan v then PInf else v)"

text \<open>
  \<open>torch.argmin\<close> along a row: the index of the first NaN if there is one, of the first
  minimal value otherwise.  The accumulator holds the best index and value so far.
\<close>

fun argmin_from :: "nat \<Rightarrow> fp \<Rightarrow> nat \<Rightarrow> fp list \<Rightarrow> nat" where
  "argmin_from bi bv i [] = bi"
| "argmin_from bi bv i (v # vs) =
     (if less_or_nan v bv then argmin_from i v (Suc i) vs
      else argmin_from bi bv (Suc i) vs)"

fun argmin :: "fp list \<Rightarrow> nat" where
  "argmin [] = 0"
| "argmin (v # vs) = argmin_from 0 v 1 vs"

text \<open>
  The loss matrix \<open>y\<close> as a list of rows: \<open>cols\<close> are the loss vectors of the
  candidates, stacked along dimension 1, with NaN replaced by +infinity.
\<close>

definition loss_matrix :: "fp list list \<Rightarrow> nat \<Rightarrow> fp list list" where
  "loss_matrix cols M = map (\<lambda>i. map (\<lambda>c. nan_to_inf (c ! i)) cols) [0..<M]"

text \<open>
  The selection: per row the index of the minimal loss, the loss there (\<open>f_best\<close>) and
  the multiplier there (\<open>bet\<close>).
\<close>

definition ls_select :: "fp list \<Rightarrow> fp list list \<Rightarrow> fp list \<times> fp list" where
  "ls_select bets y =
     (map (\<lambda>row. bets ! argmin row) y, map (\<lambda>row. row ! argmin row) y)"

text \<open>
  The objective \<open>f_fn\<close> returns the loss vector \<open>torch.atleast_1d(f_fn(x))\<close>, one loss per
  batch row.  \<open>torch.stack\<close> raises unless all candidates give vectors of one length, and
  \<open>torch.cat\<close> raises unless the incumbent loss \<open>f\<close> has that length too.  The result
  is \<open>(bet, d_norm, f_best)\<close>.
\<close>

definition linesearch ::
  "torch \<Rightarrow> fp list \<Rightarrow> tensor \<Rightarrow> tensor \<Rightarrow> (tensor \<Rightarrow> fp list) \<Rightarrow> int \<Rightarrow> bool \<Rightarrow>
     error + (fp list \<times> fp list \<times> fp list)" where
  "linesearch T f x d f_fn ls_pts_nb force_step =
     (let bets = ls_candidates ls_pts_nb;
          cols = map (\<lambda>bet. f_fn (axpy x bet d)) bets;
          M = (case cols of [] \<Rightarrow> 0 | c # _ \<Rightarrow> length c)
      in if \<not> list_all (\<lambda>c. length c = M) cols then Inl ShapeError
         else if force_step then
           (case ls_select bets (loss_matrix cols M) of
              (bet, f_best) \<Rightarrow> Inr (bet, norm_trailing T d, f_best))
         else if length f \<noteq> M then Inl ShapeError
         else
           (case ls_select (Fin 0 # bets) (map2 (#) f (loss_matrix cols M)) of
              (bet, f_best) \<Rightarrow> Inr (bet, norm_trailing T d, f_best)))"

text \<open>The points at which the line search calls the objective, in order.\<close>

definition linesearch_points :: "tensor \<Rightarrow> tensor \<Rightarrow> int \<Rightarrow> tensor list" where
  "linesearch_points x d ls_pts_nb = map (\<lambda>bet. axpy x bet d) (ls_candidates ls_pts_nb)"


section \<open>The Newton-step optimizer: \<open>minimize_sqp\<close>\<close>

subsection \<open>Arguments, effects and local state\<close>

text \<open>
  The keyword arguments of a call.  The objective returns its loss vector (see the line
  search); gradient and Hessian return tensors that the optimizer reshapes itself.
  \<open>callback_fn\<close> says whether a callback was passed: its return value is never used, so
  only the fact that it is called is modelled.  Progress reporting (\<open>verbose\<close>,
  \<open>use_tqdm\<close>, \<open>use_writer\<close>) does not influence the computation and is left out.
\<close>

record call =
  f_fn :: "tensor \<Rightarrow> fp list"
  g_fn :: "tensor \<Rightarrow> tensor"
  h_fn :: "tensor \<Rightarrow> tensor"
  reg0 :: fp
  max_it :: int
  ls_pts_nb :: int
  force_step :: bool
  batched :: bool
  full_output :: bool
  callback_fn :: bool

text \<open>
  What a run does to its caller, in order: the calls of the caller-supplied functions with
  their arguments, and the debugger breakpoint that precedes the first callback.
\<close>

datatype event =
    F_call tensor
  | G_call tensor
  | H_call tensor
  | Callback tensor
  | Pdb_set_trace

text \<open>
  The locals \<open>x_shape\<close>, \<open>M\<close> and \<open>x_size\<close>, fixed before the loop.  \<open>x_size\<close> is
  \<open>np.prod(x_shape[1:])\<close> in batched mode, and \<open>np.prod\<close> of the empty shape is the
  float \<open>1.0\<close>, not an integer: \<open>x_size_float\<close> records that case, in which
  \<open>reshape\<close> refuses \<open>x_size\<close> as a dimension.
\<close>

record dims =
  x_shape :: "nat list"
  batch_M :: nat
  x_size :: nat
  x_size_float :: bool

text \<open>
  The locals the loop changes.  \<open>s_it\<close> counts the iterations completed; \<open>s_bet\<close> and
  \<open>s_d_norm\<close> hold the line search's output of the latest iteration.
\<close>

record sqp_state =
  s_x :: tensor
  s_x_best :: tensor
  s_f_best :: "fp list"
  s_f_hist :: "fp list list"
  s_x_hist :: "tensor list"
  s_it :: nat
  s_imprv :: fp
  s_bet :: "fp list"
  s_d_norm :: "fp list"

subsection \<open>The parts of one iteration\<close>

definition sqp_dims :: "bool \<Rightarrow> tensor \<Rightarrow> error + dims" where
  "sqp_dims is_batched x =
     (if is_batched then
        (case shape x of
           [] \<Rightarrow> Inl IndexError
         | m # rest \<Rightarrow>
             Inr \<lparr>x_shape = shape x, batch_M = m, x_size = prod_list rest,
                  x_size_float = (rest = [])\<rparr>)
      else Inr \<lparr>x_shape = shape x, batch_M = 1, x_size = numel x, x_size_float = False\<rparr>)"

text \<open>
  Gradient and Hessian at the iterate: both are evaluated and reshaped before either is
  tested for NaN.  The gradient is evaluated first and its \<open>reshape((M, x_size))\<close> raises
  \<open>TypeError\<close> when \<open>x_size\<close> is a float, before the Hessian is evaluated.
\<close>

definition eval_derivatives ::
  "call \<Rightarrow> dims \<Rightarrow> tensor \<Rightarrow> event list \<times> (error + tensor \<times> tensor)" where
  "eval_derivatives C D x =
     (if x_size_float D then ([G_call x], Inl TypeError)
      else
        (case reshape [batch_M D, x_size D] (g_fn C x) of
           Inl e \<Rightarrow> ([G_call x], Inl e)
         | Inr g \<Rightarrow>
             (case reshape [batch_M D, x_size D, x_size D] (h_fn C x) of
                Inl e \<Rightarrow> ([G_call x, H_call x], Inl e)
              | Inr H \<Rightarrow>
                  ([G_call x, H_call x],
                   if any_nan g then Inl (RuntimeError ''Gradient is NaN'')
                   else if any_nan H then Inl (RuntimeError ''Hessian is NaN'')
                   else Inr (g, H)))))"

definition tensor_neg :: "tensor \<Rightarrow> tensor" where
  "tensor_neg t = Tensor (shape t) (map fp_neg (elems t))"

text \<open>The Newton direction: factorize, solve for \<open>-g\<close>, reshape to the variable's shape.\<close>

definition newton_direction ::
  "torch \<Rightarrow> fp \<Rightarrow> nat list \<Rightarrow> tensor \<Rightarrow> tensor \<Rightarrow> (error + tensor) option" where
  "newton_direction T r0 xs g H =
     (case positive_factorization_lobpcg T H r0 of
        None \<Rightarrow> None
      | Some (Inl e) \<Rightarrow> Some (Inl e)
      | Some (Inr (F, reg_it_max, reg)) \<Rightarrow>
          (case cholesky_solve T (tensor_neg g) F of
             Inl e \<Rightarrow> Some (Inl e)
           | Inr d \<Rightarrow> Some (reshape xs d)))"

text \<open>
  \<open>x + torch.reshape(bet, (M,) + (1,) * len(x_shape[1:])) * d\<close>: row \<open>i\<close> of \<open>d\<close> is
  scaled by \<open>bet[i]\<close>.  The reshape raises unless \<open>bet\<close> has \<open>M\<close> entries.  A scalar
  \<open>x\<close> comes out with shape \<open>(1,)\<close>.
\<close>

definition step_update :: "dims \<Rightarrow> tensor \<Rightarrow> fp list \<Rightarrow> tensor \<Rightarrow> error + tensor" where
  "step_update D x bet d =
     (if length bet \<noteq> batch_M D then Inl ShapeError
      else Inr (Tensor (if shape x = [] then [1] else shape x)
             (map (\<lambda>k. fp_add (elems x ! k) (fp_mul (bet ! (k div x_size D)) (elems d ! k)))
                [0..<numel x])))"

text \<open>The elementwise product \<open>bet * d_norm\<close> with broadcasting of a single entry.\<close>

definition bcast_mul :: "fp list \<Rightarrow> fp list \<Rightarrow> error + fp list" where
  "bcast_mul a b =
     (if length a = length b then Inr (map2 fp_mul a b)
      else if length a = 1 then Inr (map (fp_mul (hd a)) b)
      else if length b = 1 then Inr (map (\<lambda>v. fp_mul v (hd b)) a)
      else Inl ShapeError)"

definition fp_sum :: "fp list \<Rightarrow> fp" where
  "fp_sum xs = fold (\<lambda>v acc. fp_add acc v) xs (Fin 0)"

text \<open>\<open>torch.mean\<close>: the mean of no elements is NaN.\<close>

definition torch_mean :: "fp list \<Rightarrow> fp" where
  "torch_mean xs = fp_div_count (fp_sum xs) (length xs)"

text \<open>\<open>t[i, ...]\<close> for a tensor whose rows have \<open>n\<close> elements.\<close>

definition row :: "nat \<Rightarrow> nat \<Rightarrow> tensor \<Rightarrow> fp list" where
  "row n i t = take n (drop (i * n) (elems t))"

text \<open>
  The update of the running best point.  In batched mode each row keeps its own best and
  the rows are stacked again (\<open>torch.stack\<close> raises on an empty list); otherwise the
  whole iterate is kept when its first loss is lower.  Indexing a loss vector beyond its
  length raises.
\<close>

definition update_best ::
  "bool \<Rightarrow> dims \<Rightarrow> tensor \<Rightarrow> fp list \<Rightarrow> tensor \<Rightarrow> fp list \<Rightarrow> error + tensor \<times> fp list" where
  "update_best is_batched D x ls_f x_best f_best =
     (if is_batched then
        (if batch_M D = 0 then Inl (RuntimeError ''stack expects a non-empty TensorList'')
         else if length ls_f < batch_M D then Inl IndexError
         else if length f_best < batch_M D then Inl IndexError
         else Inr
           (Tensor (shape x)
              (concat (map (\<lambda>i. if fp_lt (ls_f ! i) (f_best ! i)
                                then row (x_size D) i x else row (x_size D) i x_best)
                         [0..<batch_M D])),
            map (\<lambda>i. if fp_lt (ls_f ! i) (f_best ! i) then ls_f ! i else f_best ! i)
              [0..<batch_M D]))
      else
        (case ls_f of
           [] \<Rightarrow> Inl IndexError
         | a # _ \<Rightarrow>
             (case f_best of
                [] \<Rightarrow> Inl IndexError
              | b # _ \<Rightarrow> if fp_lt a b then Inr (x, ls_f) else Inr (x_best, f_best))))"

subsection \<open>One iteration, the loop and the whole call\<close>

text \<open>
  One pass through the loop body.  \<open>None\<close>: the regularizer never returns.  Otherwise the
  events of the pass, with the error raised or the locals after the pass.
\<close>

definition sqp_step ::
  "torch \<Rightarrow> call \<Rightarrow> dims \<Rightarrow> sqp_state \<Rightarrow> (event list \<times> (error + sqp_state)) option" where
  "sqp_step T C D s =
     (case eval_derivatives C D (s_x s) of
        (ev, Inl e) \<Rightarrow> Some (ev, Inl e)
      | (ev, Inr (g, H)) \<Rightarrow>
          (case newton_direction T (reg0 C) (x_shape D) g H of
             None \<Rightarrow> None
           | Some (Inl e) \<Rightarrow> Some (ev, Inl e)
           | Some (Inr d) \<Rightarrow>
               (if s_f_hist s = [] then Some (ev, Inl IndexError)
                else
                  (case linesearch T (last (s_f_hist s)) (s_x s) d (f_fn C)
                          (ls_pts_nb C) (force_step C) of
                     Inl e \<Rightarrow>
                       Some (ev @ map F_call (linesearch_points (s_x s) d (ls_pts_nb C)), Inl e)
                   | Inr (bet, d_norm, ls_f) \<Rightarrow>
                       (case step_update D (s_x s) bet d of
                          Inl e \<Rightarrow>
                            Some (ev @ map F_call (linesearch_points (s_x s) d (ls_pts_nb C)),
                                  Inl e)
                        | Inr x' \<Rightarrow>
                            (case bcast_mul bet d_norm of
                               Inl e \<Rightarrow>
                                 Some (ev @ map F_call
                                         (linesearch_points (s_x s) d (ls_pts_nb C)), Inl e)
                             | Inr bd \<Rightarrow>
                                 (case update_best (batched C) D x' ls_f (s_x_best s)
                                         (s_f_best s) of
                                    Inl e \<Rightarrow>
                                      Some (ev @ map F_call
                                              (linesearch_points (s_x s) d (ls_pts_nb C))
                                            @ (if callback_fn C then [Callback x'] else []),
                                            Inl e)
                                  | Inr (xb, fb) \<Rightarrow>
                                      Some (ev @ map F_call
                                              (linesearch_points (s_x s) d (ls_pts_nb C))
                                            @ (if callback_fn C then [Callback x'] else []),
                                            Inr \<lparr>s_x = x', s_x_best = xb, s_f_best = fb,
                                                 s_f_hist = s_f_hist s @ [ls_f],
                                                 s_x_hist = s_x_hist s @ [x'],
                                                 s_it = Suc (s_it s),
                                                 s_imprv = torch_mean bd,
                                                 s_bet = bet, s_d_norm = d_norm\<rparr>))))))))"

text \<open>The convergence threshold \<open>1e-9\<close>.\<close>

definition imprv_tol :: fp where
  "imprv_tol = Fin (1 / 10 ^ 9)"

text \<open>
  \<open>for it in range(max_it)\<close> with the \<open>break\<close> at the end of the body; the first argument
  is the number of iterations left.
\<close>

fun sqp_loop ::
  "torch \<Rightarrow> call \<Rightarrow> dims \<Rightarrow> nat \<Rightarrow> sqp_state \<Rightarrow> (event list \<times> (error + sqp_state)) option" where
  "sqp_loop T C D 0 s = Some ([], Inr s)"
| "sqp_loop T C D (Suc k) s =
     (case sqp_step T C D s of
        None \<Rightarrow> None
      | Some (ev, Inl e) \<Rightarrow> Some (ev, Inl e)
      | Some (ev, Inr s') \<Rightarrow>
          if fp_lt (s_imprv s') imprv_tol then Some (ev, Inr s')
          else
            (case sqp_loop T C D k s' of
               None \<Rightarrow> None
             | Some (ev', r) \<Rightarrow> Some (ev @ ev', r)))"

text \<open>
  \<open>sqp_reaches T C D j s\<close>: started with the locals \<open>s\<close>, the loop completes \<open>j\<close>
  passes without an error and without taking the \<open>break\<close>; the result holds the events
  of these passes and the locals with which the next pass would start.
\<close>

fun sqp_reaches ::
  "torch \<Rightarrow> call \<Rightarrow> dims \<Rightarrow> nat \<Rightarrow> sqp_state \<Rightarrow> (event list \<times> sqp_state) option" where
  "sqp_reaches T C D 0 s = Some ([], s)"
| "sqp_reaches T C D (Suc j) s =
     (case sqp_step T C D s of
        Some (ev, Inr s') \<Rightarrow>
          if fp_lt (s_imprv s') imprv_tol then None
          else
            (case sqp_reaches T C D j s' of
               None \<Rightarrow> None
             | Some (ev', s'') \<Rightarrow> Some (ev @ ev', s''))
      | _ \<Rightarrow> None)"

text \<open>The locals before the first iteration, for the initial point \<open>x\<close>.\<close>

definition sqp_init :: "call \<Rightarrow> tensor \<Rightarrow> sqp_state" where
  "sqp_init C x =
     \<lparr>s_x = x, s_x_best = x, s_f_best = f_fn C x, s_f_hist = [f_fn C x], s_x_hist = [x],
      s_it = 0, s_imprv = PInf, s_bet = [], s_d_norm = []\<rparr>"

definition init_events :: "call \<Rightarrow> tensor \<Rightarrow> event list" where
  "init_events C x = F_call x # (if callback_fn C then [Pdb_set_trace, Callback x] else [])"

text \<open>
  The run up to the \<open>return\<close>: the events, with the error raised or the values of
  \<open>x_shape\<close>, \<open>M\<close>, \<open>x_size\<close> and the locals at the end of the loop.
\<close>

definition sqp_run ::
  "torch \<Rightarrow> call \<Rightarrow> tensor list \<Rightarrow> (event list \<times> (error + dims \<times> sqp_state)) option" where
  "sqp_run T C args =
     (if length args > 1
      then Some ([], Inl (ValueError ''SQP only only supports single variable functions''))
      else
        (case args of
           [] \<Rightarrow> Some ([], Inl IndexError)
         | x # _ \<Rightarrow>
             (case sqp_dims (batched C) x of
                Inl e \<Rightarrow> Some ([], Inl e)
              | Inr D \<Rightarrow>
                  (case sqp_loop T C D (nat (max_it C)) (sqp_init C x) of
                     None \<Rightarrow> None
                   | Some (ev, Inl e) \<Rightarrow> Some (init_events C x @ ev, Inl e)
                   | Some (ev, Inr s) \<Rightarrow> Some (init_events C x @ ev, Inr (D, s))))))"

text \<open>
  The value returned: \<open>x_best\<close>, and with \<open>full_output\<close> also
  \<open>x_hist + [x_best.detach().clone()]\<close>.
\<close>

definition sqp_return :: "call \<Rightarrow> sqp_state \<Rightarrow> tensor \<times> tensor list option" where
  "sqp_return C s =
     (s_x_best s, if full_output C then Some (s_x_hist s @ [s_x_best s]) else None)"

definition minimize_sqp ::
  "torch \<Rightarrow> call \<Rightarrow> tensor list \<Rightarrow>
     (event list \<times> (error + tensor \<times> tensor list option)) option" where
  "minimize_sqp T C args =
     (case sqp_run T C args of
        None \<Rightarrow> None
      | Some (ev, Inl e) \<Rightarrow> Some (ev, Inl e)
      | Some (ev, Inr (D, s)) \<Rightarrow> Some (ev, Inr (sqp_return C s)))"


section \<open>The library on \<open>1 \<times> 1\<close> matrices\<close>

text \<open>
  For a batch of \<open>1 \<times> 1\<close> matrices the library functions have closed forms: the
  Cholesky factor of \<open>(a)\<close> is \<open>(sqrt a)\<close> and exists only for \<open>a > 0\<close>, the solution
  of \<open>F F\<^sup>T d = b\<close> is \<open>b / F\<^sup>2\<close>, the only eigenvalue of \<open>(a)\<close> is \<open>a\<close>, and the
  norm of a one-element row is its absolute value.  The iterative eigenvalue estimator
  rejects matrices this small.  This instance is used to run the model on concrete
  one-dimensional problems.
\<close>

fun fp_positive :: "fp \<Rightarrow> bool" where
  "fp_positive (Fin a) = (0 < a)"
| "fp_positive PInf = True"
| "fp_positive _ = False"

fun fp_sqrt :: "fp \<Rightarrow> fp" where
  "fp_sqrt (Fin a) = (if 0 \<le> a then Fin (sqrt a) else NaN)"
| "fp_sqrt PInf = PInf"
| "fp_sqrt _ = NaN"

fun fp_abs :: "fp \<Rightarrow> fp" where
  "fp_abs (Fin a) = Fin \<bar>a\<bar>"
| "fp_abs NaN = NaN"
| "fp_abs _ = PInf"

fun solve_entry :: "fp \<Rightarrow> fp \<Rightarrow> fp" where
  "solve_entry (Fin b) (Fin l) = (if l = 0 then NaN else Fin (b / (l * l)))"
| "solve_entry _ _ = NaN"

definition cholesky_1x1 :: "tensor \<Rightarrow> error + tensor" where
  "cholesky_1x1 A =
     (if list_all fp_positive (elems A) then Inr (Tensor (shape A) (map fp_sqrt (elems A)))
      else Inl LinAlgError)"

definition torch_1x1 :: torch where
  "torch_1x1 =
     \<lparr>linalg_cholesky = cholesky_1x1,
      cholesky_solve = (\<lambda>b F. Inr (Tensor (shape b) (map2 solve_entry (elems b) (elems F)))),
      linalg_eigvals_real = (\<lambda>A. Inr (elems A)),
      lobpcg = (\<lambda>H. Inl (RuntimeError ''LPBPCG algorithm is not applicable'')),
      norm_trailing = (\<lambda>d. map fp_abs (elems d))\<rparr>"


section \<open>Defaults and example objectives\<close>


text \<open>An objective that is \<open>0\<close> everywhere, on a single row.\<close>

definition zero_loss :: "tensor \<Rightarrow> fp list" where
  "zero_loss t = [Fin 0]"

text \<open>
  An objective on one scalar that takes the losses \<open>5, 3, 1, 4, 9\<close> at the five default
  candidate multipliers \<open>0.1, 10\<^sup>-\<^sup>0\<^sup>.\<^sup>5, 1, 10\<^sup>0\<^sup>.\<^sup>5, 10\<close>.
\<close>

definition scenario_loss :: "tensor \<Rightarrow> fp list" where
  "scenario_loss t =
     (case elems t of
        [Fin v] \<Rightarrow>
          [Fin (if v = 1 / 10 then 5 else if v = 1 then 1 else if v = 10 then 9
                else if v < 1 then 3 else 4)]
      | _ \<Rightarrow> [NaN])"

text \<open>
  The one-dimensional quadratic \<open>f(x) = (x - 2)\<^sup>2 / 2\<close> per row, with gradient
  \<open>x - 2\<close> and Hessian \<open>1\<close>, searched with the single candidate multiplier \<open>1\<close>.
\<close>

fun quad_entry :: "fp \<Rightarrow> fp" where
  "quad_entry (Fin v) = Fin ((v - 2) * (v - 2) / 2)"
| "quad_entry _ = NaN"

fun quad_grad_entry :: "fp \<Rightarrow> fp" where
  "quad_grad_entry (Fin v) = Fin (v - 2)"
| "quad_grad_entry _ = NaN"

definition quad_call :: "bool \<Rightarrow> call" where
  "quad_call is_batched =
     \<lparr>f_fn = (\<lambda>t. map quad_entry (elems t)),
      g_fn = (\<lambda>t. Tensor (shape t) (map quad_grad_entry (elems t))),
      h_fn = (\<lambda>t. Tensor [numel t, 1, 1] (map (\<lambda>v. Fin 1) (elems t))),
      reg0 = Fin 0, max_it = 100, ls_pts_nb = 1,
      force_step = False, batched = is_batched, full_output = True, callback_fn = False\<rparr>"

text \<open>
  The constant objective \<open>f(x) = 0\<close> on one row, with gradient \<open>0\<close> and Hessian \<open>0\<close>,
  called with the keyword defaults except \<open>reg0 = 0.0\<close>.
\<close>

definition flat_call :: call where
  "flat_call =
     \<lparr>f_fn = zero_loss,
      g_fn = (\<lambda>t. Tensor (shape t) (map (\<lambda>v. Fin 0) (elems t))),
      h_fn = (\<lambda>t. Tensor [numel t, 1, 1] (map (\<lambda>v. Fin 0) (elems t))),
      reg0 = Fin 0, max_it = 100, ls_pts_nb = 5,
      force_step = False, batched = False, full_output = False, callback_fn = False\<rparr>"


text \<open>The locals \<open>x_shape\<close>, \<open>M\<close>, \<open>x_size\<close> for a single one-dimensional row.\<close>

definition quad_dims :: "nat list \<Rightarrow> dims" where
  "quad_dims sh = \<lparr>x_shape = sh, batch_M = 1, x_size = 1, x_size_float = False\<rparr>"

section \<open>The invariant of the loop\<close>



section \<open>Properties of the regularizer\<close>

subsection \<open>The escalation loop\<close>

text \<open>
  From shift \<open>0\<close> the escalation never moves: \<open>0 * 5 = 0\<close> stays below the bound, so a
  loop whose attempt at shift \<open>0\<close> fails can return nothing, neither a factor nor an
  error.
\<close>

lemma loop_stuck_at_zero:
  assumes "positive_factorization_cholesky_loop chol H reg n = Some r"
  shows "\<not> (reg = Fin 0 \<and> cholesky_attempt chol H (Fin 0) = None)"
proof -
  have "positive_factorization_cholesky_loop chol H reg n = Some r \<Longrightarrow>
        \<not> (reg = Fin 0 \<and> cholesky_attempt chol H (Fin 0) = None)"
    by (rule positive_factorization_cholesky_loop.raw_induct
         [where P = "\<lambda>chol H reg n r.
                       \<not> (reg = Fin 0 \<and> cholesky_attempt chol H (Fin 0) = None)"])
       (auto simp: fp_ge_def split: option.splits if_splits)
  with assms show ?thesis by blast
qed

text \<open>
  From a positive shift the loop always exits: after finitely many multiplications by 5
  the shift passes the bound.
\<close>

lemma loop_exits_from_positive:
  "0 < r \<Longrightarrow> 9900000 \<le> r * 5 ^ Suc k \<Longrightarrow>
   \<exists>res. positive_factorization_cholesky_loop chol H (Fin r) n = Some res"
proof (induction k arbitrary: r n)
  case 0
  then show ?case
    by (subst positive_factorization_cholesky_loop.simps)
       (simp add: fp_ge_def split: option.splits)
next
  case (Suc k)
  have "0 < r * 5" using Suc.prems by simp
  moreover have "9900000 \<le> (r * 5) * 5 ^ Suc k" using Suc.prems by (simp add: mult.assoc)
  ultimately obtain res where
    "positive_factorization_cholesky_loop chol H (Fin (r * 5)) (n + 1) = Some res"
    using Suc.IH by blast
  then show ?case
    by (subst positive_factorization_cholesky_loop.simps)
       (simp add: fp_ge_def split: option.splits)
qed

lemma positive_shift_terminates:
  assumes "0 < r"
  shows "\<exists>res. positive_factorization_cholesky chol H (Fin r) = Some res"
proof -
  obtain k :: nat where "9900000 / r < 5 ^ k"
    using real_arch_pow [of 5 "9900000 / r"] by auto
  then have "9900000 < r * 5 ^ k" using assms by (simp add: field_simps)
  then have "9900000 \<le> r * 5 ^ Suc k" using assms
    by (smt (verit) mult_left_mono power_Suc mult_le_cancel_left_pos power_increasing
        one_le_numeral lessI less_imp_le_nat)
  then show ?thesis
    unfolding positive_factorization_cholesky_def using assms loop_exits_from_positive by blast
qed

text \<open>
  Claim C1 (the escalation loop makes a bounded number of attempts on every input and
  never loops indefinitely) fails on the code for the initial shift \<open>0\<close>: if the
  factorization of \<open>H + 0 * I\<close> fails, \<open>_positive_factorization_cholesky(H, 0.0)\<close> never
  returns and never raises.
\<close>

theorem zero_shift_never_returns:
  "cholesky_attempt chol H (Fin 0) = None \<Longrightarrow>
   positive_factorization_cholesky chol H (Fin 0) = None"
  unfolding positive_factorization_cholesky_def
  using loop_stuck_at_zero [of chol H "Fin 0" 0]
  by (cases "positive_factorization_cholesky_loop chol H (Fin 0) 0") auto

theorem zero_shift_never_returns_witness:
  "cholesky_attempt cholesky_1x1 (Tensor [1, 1, 1] [Fin (- 1)]) (Fin 0) = None \<and>
   positive_factorization_cholesky cholesky_1x1 (Tensor [1, 1, 1] [Fin (- 1)]) (Fin 0) = None"
proof -
  have h: "cholesky_attempt cholesky_1x1 (Tensor [1, 1, 1] [Fin (- 1)]) (Fin 0) = None"
    by (simp add: cholesky_attempt_def add_diag_def cholesky_1x1_def)
  show ?thesis using h zero_shift_never_returns [OF h] by simp
qed

subsection \<open>The initial shift\<close>

text \<open>
  Claim C2 (the minimum eigenvalue is computed exactly below dimension 3, also for a
  batch) fails on the code for a batch of two or more matrices of dimension 1 or 2: the
  reshape to a single \<open>n \<times> n\<close> matrix raises before any eigenvalue is computed, so the
  regularizer returns no shift and no factor.
\<close>

theorem small_batched_hessian_raises:
  "shape H = [M, n, n] \<Longrightarrow> numel H = M * n * n \<Longrightarrow> 2 \<le> M \<Longrightarrow> 0 < n \<Longrightarrow> n < 3 \<Longrightarrow>
   positive_factorization_lobpcg T H r0 = Some (Inl ShapeError)"
  by (simp add: positive_factorization_lobpcg_def min_eigenvalue_estimate_def reshape_def)

theorem small_batched_hessian_raises_witness:
  "shape (Tensor [3, 1, 1] [Fin 2, Fin 2, Fin 2]) = [3, 1, 1] \<and>
   numel (Tensor [3, 1, 1] [Fin 2, Fin 2, Fin 2]) = 3 * 1 * 1 \<and>
   (2::nat) \<le> 3 \<and> (0::nat) < 1 \<and> (1::nat) < 3 \<and>
   positive_factorization_lobpcg torch_1x1 (Tensor [3, 1, 1] [Fin 2, Fin 2, Fin 2])
     (Fin (1 / 10 ^ 7)) = Some (Inl ShapeError)"
  using small_batched_hessian_raises
    [of "Tensor [3, 1, 1] [Fin 2, Fin 2, Fin 2]" 3 1 torch_1x1 "Fin (1 / 10 ^ 7)"]
  by (simp add: numel_def)

text \<open>
  For a single matrix of dimension below 3 the shift is the larger of \<open>reg0\<close> and
  \<open>max (- 2 * \<lambda>, 0)\<close>, where \<open>\<lambda>\<close> is the least exact eigenvalue.
\<close>

lemma single_small_hessian_shift:
  "shape H = [1, n, n] \<Longrightarrow> numel H = n * n \<Longrightarrow> n < 3 \<Longrightarrow>
   linalg_eigvals_real T (Tensor [n, n] (elems H)) = Inr ev \<Longrightarrow> torch_min ev = Inr lam \<Longrightarrow>
   positive_factorization_lobpcg T H r0 =
     positive_factorization_cholesky (linalg_cholesky T) H
       (py_max (py_max (fp_mul (Fin (- 2)) lam) (Fin 0)) r0)"
  by (simp add: positive_factorization_lobpcg_def min_eigenvalue_estimate_def reshape_def
      initial_shift_def)


section \<open>Properties of the line search\<close>

subsection \<open>The order of \<open>argmin\<close>\<close>

lemma less_or_nan_irrefl: "\<not> less_or_nan a a"
  by (cases a) (simp_all add: less_or_nan_def)

lemma less_or_nan_trans: "less_or_nan a b \<Longrightarrow> less_or_nan b c \<Longrightarrow> less_or_nan a c"
  by (cases a; cases b; cases c) (simp_all add: less_or_nan_def)

lemma less_or_nan_neg_trans: "less_or_nan a c \<Longrightarrow> less_or_nan a b \<or> less_or_nan b c"
  by (cases a; cases b; cases c) (auto simp: less_or_nan_def)

lemma argmin_from_spec:
  assumes "i = length ys" "bi < i" "ys ! bi = bv"
    and "\<forall>j<i. \<not> less_or_nan (ys ! j) bv"
    and "\<forall>j<bi. less_or_nan bv (ys ! j)"
  shows "argmin_from bi bv i vs < length (ys @ vs) \<and>
         (\<forall>j<length (ys @ vs). \<not> less_or_nan ((ys @ vs) ! j) ((ys @ vs) ! argmin_from bi bv i vs)) \<and>
         (\<forall>j<argmin_from bi bv i vs. less_or_nan ((ys @ vs) ! argmin_from bi bv i vs) ((ys @ vs) ! j))"
  using assms
proof (induction vs arbitrary: ys bi bv i)
  case Nil
  then show ?case by simp
next
  case (Cons v vs)
  show ?case
  proof (cases "less_or_nan v bv")
    case True
    have a: "Suc i = length (ys @ [v])" using Cons.prems by simp
    have b: "i < Suc i" by simp
    have c: "(ys @ [v]) ! i = v" using Cons.prems(1) by (auto simp: nth_append)
    have d: "\<forall>j<Suc i. \<not> less_or_nan ((ys @ [v]) ! j) v"
    proof (intro allI impI)
      fix j assume "j < Suc i"
      show "\<not> less_or_nan ((ys @ [v]) ! j) v"
      proof (cases "j = i")
        case True then show ?thesis using c less_or_nan_irrefl by simp
      next
        case False
        then have "j < i" using \<open>j < Suc i\<close> by simp
        then have "\<not> less_or_nan (ys ! j) bv" using Cons.prems by blast
        then have "\<not> less_or_nan (ys ! j) v" using True less_or_nan_trans by blast
        then show ?thesis using \<open>j < i\<close> Cons.prems by (simp add: nth_append)
      qed
    qed
    have e: "\<forall>j<i. less_or_nan v ((ys @ [v]) ! j)"
    proof (intro allI impI)
      fix j assume "j < i"
      then have "\<not> less_or_nan (ys ! j) bv" using Cons.prems by blast
      then have "less_or_nan v (ys ! j)" using True less_or_nan_neg_trans by blast
      then show "less_or_nan v ((ys @ [v]) ! j)" using \<open>j < i\<close> Cons.prems by (simp add: nth_append)
    qed
    from Cons.IH [OF a b c d e] True show ?thesis by simp
  next
    case False
    have a: "Suc i = length (ys @ [v])" using Cons.prems by simp
    have b: "bi < Suc i" using Cons.prems by simp
    have c: "(ys @ [v]) ! bi = bv" using Cons.prems by (simp add: nth_append)
    have d: "\<forall>j<Suc i. \<not> less_or_nan ((ys @ [v]) ! j) bv"
    proof (intro allI impI)
      fix j assume "j < Suc i"
      show "\<not> less_or_nan ((ys @ [v]) ! j) bv"
      proof (cases "j = i")
        case True then show ?thesis using False Cons.prems by simp
      next
        case False
        then have "j < i" using \<open>j < Suc i\<close> by simp
        then show ?thesis using Cons.prems by (simp add: nth_append)
      qed
    qed
    have e: "\<forall>j<bi. less_or_nan bv ((ys @ [v]) ! j)"
      using Cons.prems by (simp add: nth_append)
    from Cons.IH [OF a b c d e] False show ?thesis by simp
  qed
qed

lemma argmin_spec:
  assumes "xs \<noteq> []"
  shows "argmin xs < length xs \<and>
         (\<forall>j<length xs. \<not> less_or_nan (xs ! j) (xs ! argmin xs)) \<and>
         (\<forall>j<argmin xs. less_or_nan (xs ! argmin xs) (xs ! j))"
proof -
  obtain v vs where xs: "xs = v # vs" using assms by (cases xs) auto
  have "argmin_from 0 v 1 vs < length ([v] @ vs) \<and>
         (\<forall>j<length ([v] @ vs). \<not> less_or_nan (([v] @ vs) ! j) (([v] @ vs) ! argmin_from 0 v 1 vs)) \<and>
         (\<forall>j<argmin_from 0 v 1 vs. less_or_nan (([v] @ vs) ! argmin_from 0 v 1 vs) (([v] @ vs) ! j))"
    by (rule argmin_from_spec) (simp_all add: less_or_nan_irrefl)
  then show ?thesis using xs by simp
qed





lemma less_or_nan_not_nan: "less_or_nan a b \<Longrightarrow> \<not> isnan b"
  by (cases a; cases b) (auto simp: less_or_nan_def)


subsection \<open>What the line search returns\<close>


lemma linesearch_result:
  assumes "linesearch T f x d fn n force = Inr (bet, dn, fb)"
  shows "dn = norm_trailing T d"
    and "length bet = length fb"
    and "\<not> force \<Longrightarrow> length f = length bet"
    and "i < length bet \<Longrightarrow>
         bet ! i = ((if force then [] else [Fin 0]) @ ls_candidates n) !
                     argmin ((if force then [] else [f ! i]) @
                             map (\<lambda>b. nan_to_inf (fn (axpy x b d) ! i)) (ls_candidates n)) \<and>
         fb ! i = ((if force then [] else [f ! i]) @
                    map (\<lambda>b. nan_to_inf (fn (axpy x b d) ! i)) (ls_candidates n)) !
                     argmin ((if force then [] else [f ! i]) @
                             map (\<lambda>b. nan_to_inf (fn (axpy x b d) ! i)) (ls_candidates n))"
  using assms
  by (auto simp: linesearch_def Let_def ls_select_def loss_matrix_def o_def
           split: if_splits list.splits prod.splits)

subsection \<open>The candidate multipliers\<close>



lemma upt_0_5: "[0..<5] = [0, 1, 2, 3, 4]"
  by (simp add: upt_rec)

lemma ls_candidates_5:
  "ls_candidates 5 = [Fin (1 / 10), Fin (10 powr (- 1 / 2)), Fin 1, Fin (10 powr (1 / 2)), Fin 10]"
  by (simp add: ls_candidates_def linspace_def upt_0_5 powr_minus_divide)

lemma powr_neg_half_less_one: "(10::real) powr (- 1 / 2) < 1"
  using powr_less_cancel_iff [of 10 "- 1 / 2" 0] by simp
lemma tenth_less_powr_neg_half: "1 / 10 < (10::real) powr (- 1 / 2)"
  using powr_less_cancel_iff [of 10 "- 1" "- 1 / 2"] by (simp add: powr_minus_divide)
lemma one_less_powr_half: "1 < (10::real) powr (1 / 2)"
  using powr_less_cancel_iff [of 10 0 "1 / 2"] by simp
lemma powr_half_less_ten: "(10::real) powr (1 / 2) < 10"
  using powr_less_cancel_iff [of 10 "1 / 2" 1] by simp

lemma powr_half_facts:
  "\<not> (10::real) powr (1 / 2) < 1" "(10::real) powr (1 / 2) \<noteq> 1"
  "(10::real) powr (1 / 2) \<noteq> 10" "(10::real) powr (1 / 2) \<noteq> 1 / 10"
  "(10::real) powr (1 / 2) * 10 \<noteq> 1"
  using one_less_powr_half powr_half_less_ten by linarith+

lemma powr_neg_half_facts:
  "(10::real) powr - (1 / 2) \<noteq> 1" "(10::real) powr - (1 / 2) \<noteq> 10"
  "(10::real) powr - (1 / 2) \<noteq> 1 / 10" "(10::real) powr - (1 / 2) * 10 \<noteq> 1"
  "(10::real) powr - (1 / 2) < 1"
  using powr_neg_half_less_one tenth_less_powr_neg_half by simp_all

lemma scenario_loss_values:
  "scenario_loss (Tensor sh [Fin (1 / 10)]) = [Fin 5]"
  "scenario_loss (Tensor sh [Fin (10 powr - (1 / 2))]) = [Fin 3]"
  "scenario_loss (Tensor sh [Fin 1]) = [Fin 1]"
  "scenario_loss (Tensor sh [Fin (10 powr (1 / 2))]) = [Fin 4]"
  "scenario_loss (Tensor sh [Fin 10]) = [Fin 9]"
proof -
  show "scenario_loss (Tensor sh [Fin (1 / 10)]) = [Fin 5]"
    by (simp add: scenario_loss_def)
  show "scenario_loss (Tensor sh [Fin (10 powr - (1 / 2))]) = [Fin 3]"
    by (simp add: scenario_loss_def powr_neg_half_facts)
  show "scenario_loss (Tensor sh [Fin 1]) = [Fin 1]"
    by (simp add: scenario_loss_def)
  show "scenario_loss (Tensor sh [Fin (10 powr (1 / 2))]) = [Fin 4]"
    by (simp add: scenario_loss_def powr_half_facts)
  show "scenario_loss (Tensor sh [Fin 10]) = [Fin 9]"
    by (simp add: scenario_loss_def)
qed



lemma linesearch_scenario:
  "linesearch torch_1x1 [Fin 2] (Tensor [1] [Fin 0]) (Tensor [1] [Fin 1]) scenario_loss 5 False
     = Inr ([Fin 1], [Fin 1], [Fin 1])"
  by (simp add: linesearch_def ls_candidates_5 axpy_def scenario_loss_values loss_matrix_def
      ls_select_def nan_to_inf_def less_or_nan_def torch_1x1_def Let_def)

lemma linesearch_single_example:
  "linesearch torch_1x1 [Fin 2] (Tensor [1] [Fin 0]) (Tensor [1] [Fin 1]) zero_loss 1 False
     = Inr ([Fin 1], [Fin 1], [Fin 0])"
  by (simp add: linesearch_def ls_candidates_def zero_loss_def loss_matrix_def ls_select_def
      nan_to_inf_def less_or_nan_def torch_1x1_def Let_def)

subsection \<open>The claims about the line search\<close>

lemma fp_lt_irrefl: "\<not> fp_lt a a"
  by (cases a) simp_all

lemma fp_lt_asym: "fp_lt a b \<Longrightarrow> \<not> fp_lt b a"
  by (cases a; cases b) simp_all

lemma fp_lt_trans: "fp_lt a b \<Longrightarrow> fp_lt b c \<Longrightarrow> fp_lt a c"
  by (cases a; cases b; cases c) simp_all

lemma fp_lt_imp_le: "fp_lt a b \<Longrightarrow> fp_le a b"
  by (cases a; cases b) auto

lemma fp_le_refl: "\<not> isnan a \<Longrightarrow> fp_le a a"
  by (cases a) auto

lemma fp_lt_not_nan: "fp_lt a b \<Longrightarrow> \<not> isnan b"
  by (cases a; cases b) auto

lemma less_or_nan_sanitized: "less_or_nan (nan_to_inf v) a = fp_lt (nan_to_inf v) a"
  by (simp add: less_or_nan_def nan_to_inf_def)

text \<open>
  A row whose incumbent loss is NaN: the zero-step candidate carries the NaN, \<open>argmin\<close>
  selects it, and the row keeps its point although the full step reaches the loss \<open>0\<close>.
\<close>

lemma linesearch_nan_incumbent_example:
  "linesearch torch_1x1 [NaN] (Tensor [1] [Fin 0]) (Tensor [1] [Fin 1]) zero_loss 1 False
     = Inr ([Fin 0], [Fin 1], [NaN])"
  by (simp add: linesearch_def ls_candidates_def zero_loss_def loss_matrix_def ls_select_def
      nan_to_inf_def less_or_nan_def torch_1x1_def)

text \<open>
  Claim C3: with \<open>force_step\<close> false, every batch row either keeps the incumbent (the
  multiplier is \<open>0\<close> and the loss returned is the incumbent loss itself) or gets a loss
  strictly lower than the incumbent.  So the loss returned never exceeds the incumbent
  loss; it is less than or equal to it in the floating-point comparison whenever the
  incumbent is a number, and a row whose incumbent is NaN keeps it.
\<close>

theorem linesearch_no_worse:
  assumes "linesearch T f x d fn n False = Inr (bet, dn, fb)"
    and "i < length f"
  shows "((bet ! i = Fin 0 \<and> fb ! i = f ! i) \<or> fp_lt (fb ! i) (f ! i)) \<and>
         \<not> fp_lt (f ! i) (fb ! i) \<and>
         (\<not> isnan (f ! i) \<longrightarrow> fp_le (fb ! i) (f ! i)) \<and>
         (isnan (f ! i) \<longrightarrow> bet ! i = Fin 0 \<and> fb ! i = f ! i)"
proof -
  let ?L = "map (\<lambda>b. nan_to_inf (fn (axpy x b d) ! i)) (ls_candidates n)"
  let ?R = "f ! i # ?L"
  have len: "length f = length bet" using linesearch_result(3) [OF assms(1)] by simp
  then have i: "i < length bet" using assms(2) by simp
  have r: "bet ! i = (Fin 0 # ls_candidates n) ! argmin ?R" "fb ! i = ?R ! argmin ?R"
    using linesearch_result(4) [OF assms(1) i] by simp_all
  have am: "argmin ?R < length ?R" "\<forall>j<argmin ?R. less_or_nan (?R ! argmin ?R) (?R ! j)"
    using argmin_spec [of ?R] by auto
  have main: "(bet ! i = Fin 0 \<and> fb ! i = f ! i) \<or> fp_lt (fb ! i) (f ! i)"
  proof (cases "argmin ?R")
    case 0
    then show ?thesis using r by simp
  next
    case (Suc k)
    then have k: "k < length (ls_candidates n)" using am(1) by simp
    have v: "?R ! argmin ?R = nan_to_inf (fn (axpy x (ls_candidates n ! k) d) ! i)"
      using Suc k by simp
    have "0 < argmin ?R" using Suc by simp
    then have "less_or_nan (?R ! argmin ?R) (?R ! 0)" using am(2) by blast
    then have "fp_lt (?R ! argmin ?R) (f ! i)"
      unfolding v by (simp add: less_or_nan_sanitized)
    then show ?thesis using r(2) by simp
  qed
  show ?thesis
    using main fp_lt_asym [of "fb ! i" "f ! i"] fp_lt_irrefl [of "f ! i"]
      fp_lt_imp_le [of "fb ! i" "f ! i"] fp_le_refl [of "f ! i"]
      fp_lt_not_nan [of "fb ! i" "f ! i"]
    by auto
qed

theorem linesearch_no_worse_witness:
  "linesearch torch_1x1 [Fin 2] (Tensor [1] [Fin 0]) (Tensor [1] [Fin 1]) scenario_loss 5 False
     = Inr ([Fin 1], [Fin 1], [Fin 1]) \<and>
   (0::nat) < length [Fin 2] \<and> \<not> isnan ([Fin 2] ! 0) \<and>
   fp_le ([Fin 1] ! 0) ([Fin 2] ! 0) \<and> \<not> fp_lt ([Fin 2] ! 0) ([Fin 1] ! 0) \<and>
   linesearch torch_1x1 [NaN] (Tensor [1] [Fin 0]) (Tensor [1] [Fin 1]) zero_loss 1 False
     = Inr ([Fin 0], [Fin 1], [NaN]) \<and>
   (0::nat) < length [NaN] \<and> isnan ([NaN] ! 0) \<and> [Fin 0] ! 0 = Fin 0"
proof -
  have a: "fp_le ([Fin 1] ! 0) ([Fin 2] ! 0) \<and> \<not> fp_lt ([Fin 2] ! 0) ([Fin 1] ! 0)"
    using linesearch_no_worse [OF linesearch_scenario, of 0] by simp
  have b: "isnan ([NaN] ! 0) \<and> [Fin 0] ! 0 = Fin 0"
    using linesearch_no_worse [OF linesearch_nan_incumbent_example, of 0] by simp
  show ?thesis using a b linesearch_scenario linesearch_nan_incumbent_example by simp
qed



lemma single_rows:
  "length f = length c \<Longrightarrow>
   map2 (#) f (loss_matrix [c] (length c)) = map2 (\<lambda>a v. [a, nan_to_inf v]) f c"
  by (rule nth_equalityI) (simp_all add: loss_matrix_def)

text \<open>
  Claim C10: below two line-search points the only candidate multiplier is \<open>1\<close>.  With
  \<open>force_step\<close> false the line search then decides, row by row, between the full step
  and staying put: a row takes the multiplier \<open>1\<close> and the loss at \<open>x + d\<close> (NaN read as
  +infinity) exactly when that loss is strictly lower than its incumbent loss, and
  otherwise keeps the multiplier \<open>0\<close> and its incumbent loss.  The call fails only when
  the objective returns a loss vector of another length than the incumbent.
\<close>

theorem single_candidate_linesearch:
  assumes "n < 2"
  shows "ls_candidates n = [Fin 1] \<and>
         linesearch T f x d fn n False =
           (if length f = length (fn (axpy x (Fin 1) d)) then
              Inr (map2 (\<lambda>a c. if fp_lt (nan_to_inf c) a then Fin 1 else Fin 0)
                     f (fn (axpy x (Fin 1) d)),
                   norm_trailing T d,
                   map2 (\<lambda>a c. if fp_lt (nan_to_inf c) a then nan_to_inf c else a)
                     f (fn (axpy x (Fin 1) d)))
            else Inl ShapeError)"
proof -
  have c: "ls_candidates n = [Fin 1]" using assms by (simp add: ls_candidates_def)
  let ?c = "fn (axpy x (Fin 1) d)"
  have sel: "ls_select [Fin 0, Fin 1] (map2 (\<lambda>a v. [a, nan_to_inf v]) f ?c) =
      (map2 (\<lambda>a c. if fp_lt (nan_to_inf c) a then Fin 1 else Fin 0) f ?c,
       map2 (\<lambda>a c. if fp_lt (nan_to_inf c) a then nan_to_inf c else a) f ?c)"
    by (auto simp: ls_select_def less_or_nan_sanitized)
  have "linesearch T f x d fn n False =
           (if length f = length ?c then
              Inr (map2 (\<lambda>a c. if fp_lt (nan_to_inf c) a then Fin 1 else Fin 0) f ?c,
                   norm_trailing T d,
                   map2 (\<lambda>a c. if fp_lt (nan_to_inf c) a then nan_to_inf c else a) f ?c)
            else Inl ShapeError)"
    by (simp add: linesearch_def c Let_def single_rows sel)
  then show ?thesis using c by simp
qed

text \<open>
  With incumbent loss \<open>0\<close> and loss \<open>1\<close> at the full step the row stays put; with
  incumbent loss \<open>2\<close> and loss \<open>0\<close> at the full step it takes the step.
\<close>

lemma linesearch_stay_example:
  "linesearch torch_1x1 [Fin 0] (Tensor [1] [Fin 0]) (Tensor [1] [Fin 1]) scenario_loss 1 False
     = Inr ([Fin 0], [Fin 1], [Fin 0])"
  by (simp add: linesearch_def ls_candidates_def axpy_def scenario_loss_values loss_matrix_def
      ls_select_def nan_to_inf_def less_or_nan_def torch_1x1_def Let_def)

theorem single_candidate_linesearch_witness:
  "(1::int) < 2 \<and> ls_candidates 1 = [Fin 1] \<and>
   scenario_loss (axpy (Tensor [1] [Fin 0]) (Fin 1) (Tensor [1] [Fin 1])) = [Fin 1] \<and>
   linesearch torch_1x1 [Fin 0] (Tensor [1] [Fin 0]) (Tensor [1] [Fin 1]) scenario_loss 1 False
     = Inr ([Fin 0], [Fin 1], [Fin 0]) \<and>
   zero_loss (axpy (Tensor [1] [Fin 0]) (Fin 1) (Tensor [1] [Fin 1])) = [Fin 0] \<and>
   linesearch torch_1x1 [Fin 2] (Tensor [1] [Fin 0]) (Tensor [1] [Fin 1]) zero_loss 1 False
     = Inr ([Fin 1], [Fin 1], [Fin 0])"
  using single_candidate_linesearch [where n = 1 and T = torch_1x1 and f = "[Fin 0]"
      and x = "Tensor [1] [Fin 0]" and d = "Tensor [1] [Fin 1]" and fn = scenario_loss]
    single_candidate_linesearch [where n = 1 and T = torch_1x1 and f = "[Fin 2]"
      and x = "Tensor [1] [Fin 0]" and d = "Tensor [1] [Fin 1]" and fn = zero_loss]
  by (simp add: axpy_def scenario_loss_values zero_loss_def nan_to_inf_def torch_1x1_def)

section \<open>Properties of the optimizer\<close>

subsection \<open>One pass and the loop\<close>

lemma sqp_step_Inr:
  assumes "sqp_step T C D s = Some (ev, Inr s')"
  obtains ev0 g H d bet dn ls_f x' bd xb fb where
    "eval_derivatives C D (s_x s) = (ev0, Inr (g, H))"
    "newton_direction T (reg0 C) (x_shape D) g H = Some (Inr d)"
    "s_f_hist s \<noteq> []"
    "linesearch T (last (s_f_hist s)) (s_x s) d (f_fn C) (ls_pts_nb C) (force_step C)
       = Inr (bet, dn, ls_f)"
    "step_update D (s_x s) bet d = Inr x'"
    "bcast_mul bet dn = Inr bd"
    "update_best (batched C) D x' ls_f (s_x_best s) (s_f_best s) = Inr (xb, fb)"
    "ev = ev0 @ map F_call (linesearch_points (s_x s) d (ls_pts_nb C))
            @ (if callback_fn C then [Callback x'] else [])"
    "s' = \<lparr>s_x = x', s_x_best = xb, s_f_best = fb, s_f_hist = s_f_hist s @ [ls_f],
           s_x_hist = s_x_hist s @ [x'], s_it = Suc (s_it s), s_imprv = torch_mean bd,
           s_bet = bet, s_d_norm = dn\<rparr>"
  using assms unfolding sqp_step_def
  by (auto split: prod.splits sum.splits option.splits if_splits)

lemma any_nan_reshape: "reshape sh t = Inr u \<Longrightarrow> any_nan u = any_nan t"
  by (auto simp: reshape_def any_nan_def split: if_splits)





lemma sqp_loop_after_reaches:
  "sqp_reaches T C D j s = Some (ev, s1) \<Longrightarrow>
   sqp_loop T C D (j + k) s =
     (case sqp_loop T C D k s1 of None \<Rightarrow> None | Some (ev', r) \<Rightarrow> Some (ev @ ev', r))"
proof (induction j arbitrary: s ev)
  case 0
  then show ?case by (auto split: option.splits)
next
  case (Suc j)
  from Suc.prems obtain e1 s2 e2 where st: "sqp_step T C D s = Some (e1, Inr s2)"
    and nb: "\<not> fp_lt (s_imprv s2) imprv_tol"
    and r: "sqp_reaches T C D j s2 = Some (e2, s1)" and ev: "ev = e1 @ e2"
    by (auto split: option.splits sum.splits prod.splits if_splits)
  show ?case using Suc.IH [OF r] st nb ev
    by (cases "sqp_loop T C D k s1") auto
qed

lemma sqp_loop_Inr_cases:
  "sqp_loop T C D k s = Some (ev, Inr s') \<Longrightarrow>
     sqp_reaches T C D k s = Some (ev, s') \<or>
     (\<exists>j<k. \<exists>ev1 s1 ev2. sqp_reaches T C D j s = Some (ev1, s1) \<and>
        sqp_step T C D s1 = Some (ev2, Inr s') \<and> fp_lt (s_imprv s') imprv_tol \<and>
        ev = ev1 @ ev2)"
proof (induction k arbitrary: s ev)
  case 0
  then show ?case by simp
next
  case (Suc k)
  from Suc.prems obtain e1 s1 where st: "sqp_step T C D s = Some (e1, Inr s1)"
    by (auto split: option.splits sum.splits prod.splits if_splits)
  show ?case
  proof (cases "fp_lt (s_imprv s1) imprv_tol")
    case True
    then have "ev = e1" "s' = s1" using Suc.prems st by simp_all
    then have "sqp_reaches T C D 0 s = Some ([], s) \<and> sqp_step T C D s = Some (e1, Inr s') \<and>
               fp_lt (s_imprv s') imprv_tol \<and> ev = [] @ e1"
      using st True by simp
    then show ?thesis by blast
  next
    case False
    then obtain e2 where l: "sqp_loop T C D k s1 = Some (e2, Inr s')" and ev: "ev = e1 @ e2"
      using Suc.prems st by (auto split: option.splits)
    from Suc.IH [OF l] show ?thesis
    proof
      assume "sqp_reaches T C D k s1 = Some (e2, s')"
      then show ?thesis using st False ev by simp
    next
      assume "\<exists>j<k. \<exists>ev1 s2 ev2. sqp_reaches T C D j s1 = Some (ev1, s2) \<and>
        sqp_step T C D s2 = Some (ev2, Inr s') \<and> fp_lt (s_imprv s') imprv_tol \<and>
        e2 = ev1 @ ev2"
      then obtain j ev1 s2 ev2 where j: "j < k" "sqp_reaches T C D j s1 = Some (ev1, s2)"
        "sqp_step T C D s2 = Some (ev2, Inr s')" "fp_lt (s_imprv s') imprv_tol" "e2 = ev1 @ ev2"
        by blast
      have "Suc j < Suc k \<and> sqp_reaches T C D (Suc j) s = Some (e1 @ ev1, s2) \<and>
            sqp_step T C D s2 = Some (ev2, Inr s') \<and> fp_lt (s_imprv s') imprv_tol \<and>
            ev = (e1 @ ev1) @ ev2"
        using j st False ev by simp
      then show ?thesis by blast
    qed
  qed
qed

lemma sqp_loop_exhausted:
  assumes "sqp_reaches T C D k s = Some (ev, s')"
  shows "sqp_loop T C D k s = Some (ev, Inr s')"
proof -
  have "sqp_loop T C D (k + 0) s =
     (case sqp_loop T C D 0 s' of None \<Rightarrow> None | Some (ev', r) \<Rightarrow> Some (ev @ ev', r))"
    by (rule sqp_loop_after_reaches [OF assms])
  then show ?thesis by simp
qed

lemma sqp_loop_converged:
  assumes "j < k" "sqp_reaches T C D j s = Some (ev1, s1)"
    "sqp_step T C D s1 = Some (ev2, Inr s')" "fp_lt (s_imprv s') imprv_tol"
  shows "sqp_loop T C D k s = Some (ev1 @ ev2, Inr s')"
proof -
  obtain m where "k = Suc (j + m)" using assms(1) less_imp_Suc_add by blast
  then have k: "k = j + Suc m" by simp
  have a: "sqp_loop T C D (Suc m) s1 = Some (ev2, Inr s')" using assms(3,4) by simp
  have "sqp_loop T C D (j + Suc m) s =
     (case sqp_loop T C D (Suc m) s1 of None \<Rightarrow> None | Some (ev', r) \<Rightarrow> Some (ev1 @ ev', r))"
    by (rule sqp_loop_after_reaches [OF assms(2)])
  then have "sqp_loop T C D (j + Suc m) s = Some (ev1 @ ev2, Inr s')"
    by (simp only: a option.case prod.case)
  then show ?thesis by (simp only: k)
qed

subsection \<open>A run on the quadratic\<close>

lemmas sqp_eval_defs = sqp_step_def eval_derivatives_def newton_direction_def
  positive_factorization_lobpcg_def min_eigenvalue_estimate_def initial_shift_def
  positive_factorization_cholesky_def cholesky_attempt_def add_diag_def
  torch_min_def py_max_def reshape_def numel_def any_nan_def tensor_neg_def
  linesearch_def linesearch_points_def ls_candidates_def axpy_def loss_matrix_def ls_select_def
  nan_to_inf_def less_or_nan_def step_update_def bcast_mul_def fp_sum_def torch_mean_def
  update_best_def row_def torch_1x1_def cholesky_1x1_def Let_def imprv_tol_def
  quad_call_def sqp_init_def positive_factorization_cholesky_loop.simps



lemma quad_step_1:
  assumes "prod_list sh = 1" "sh \<noteq> []"
  shows
  "sqp_step torch_1x1 (quad_call b) (quad_dims sh) (sqp_init (quad_call b) (Tensor sh [Fin 0])) =
     Some ([G_call (Tensor sh [Fin 0]), H_call (Tensor sh [Fin 0]), F_call (Tensor sh [Fin 2])],
           Inr \<lparr>s_x = Tensor sh [Fin 2], s_x_best = Tensor sh [Fin 2],
                s_f_best = [Fin 0],
                s_f_hist = [[Fin 2], [Fin 0]],
                s_x_hist = [Tensor sh [Fin 0], Tensor sh [Fin 2]],
                s_it = 1, s_imprv = Fin 2, s_bet = [Fin 1], s_d_norm = [Fin 2]\<rparr>)"
  using assms by (simp add: sqp_eval_defs quad_dims_def)

lemma quad_step_2:
  assumes "prod_list sh = 1" "sh \<noteq> []"
  shows
  "sqp_step torch_1x1 (quad_call b) (quad_dims sh)
     \<lparr>s_x = Tensor sh [Fin 2], s_x_best = Tensor sh [Fin 2],
                s_f_best = [Fin 0],
                s_f_hist = [[Fin 2], [Fin 0]],
                s_x_hist = [Tensor sh [Fin 0], Tensor sh [Fin 2]],
                s_it = 1, s_imprv = Fin 2, s_bet = [Fin 1], s_d_norm = [Fin 2]\<rparr> =
     Some ([G_call (Tensor sh [Fin 2]), H_call (Tensor sh [Fin 2]), F_call (Tensor sh [Fin 2])],
           Inr \<lparr>s_x = Tensor sh [Fin 2], s_x_best = Tensor sh [Fin 2],
                s_f_best = [Fin 0],
                s_f_hist = [[Fin 2], [Fin 0], [Fin 0]],
                s_x_hist = [Tensor sh [Fin 0], Tensor sh [Fin 2], Tensor sh [Fin 2]],
                s_it = 2, s_imprv = Fin 0, s_bet = [Fin 0], s_d_norm = [Fin 0]\<rparr>)"
  using assms by (simp add: sqp_eval_defs quad_dims_def)

subsection \<open>The best loss\<close>

lemma sqp_dims_rows: "sqp_dims b x0 = Inr D \<Longrightarrow> b \<or> batch_M D = 1"
  by (auto simp: sqp_dims_def split: if_splits list.splits)

lemma update_best_loss:
  assumes "update_best b D x ls xb fb = Inr (xb', fb')" "b \<or> batch_M D = 1" "i < batch_M D"
  shows "fb' ! i = (if fp_lt (ls ! i) (fb ! i) then ls ! i else fb ! i)"
proof (cases b)
  case True
  then show ?thesis using assms by (auto simp: update_best_def split: if_splits)
next
  case False
  then have "i = 0" using assms by simp
  then show ?thesis using assms False
    by (auto simp: update_best_def split: if_splits list.splits)
qed

lemma sqp_step_best_loss:
  assumes "b \<or> batch_M D = 1" "batched C = b" "sqp_step T C D s = Some (ev, Inr s')"
    "i < batch_M D"
  shows "s_f_best s' ! i =
           (if fp_lt (last (s_f_hist s') ! i) (s_f_best s ! i) then last (s_f_hist s') ! i
            else s_f_best s ! i)"
proof -
  from assms(3) obtain ev0 g H d bet dn ls_f x' bd xb fb where
    ub: "update_best (batched C) D x' ls_f (s_x_best s) (s_f_best s) = Inr (xb, fb)"
    and s': "s' = \<lparr>s_x = x', s_x_best = xb, s_f_best = fb, s_f_hist = s_f_hist s @ [ls_f],
           s_x_hist = s_x_hist s @ [x'], s_it = Suc (s_it s), s_imprv = torch_mean bd,
           s_bet = bet, s_d_norm = dn\<rparr>"
    by (rule sqp_step_Inr)
  show ?thesis using update_best_loss [OF ub] assms(1,2,4) s' by simp
qed

lemma sqp_step_best_loss_order:
  assumes "b \<or> batch_M D = 1" "batched C = b" "sqp_step T C D s = Some (ev, Inr s')"
    "i < batch_M D"
  shows "s_f_best s' ! i = s_f_best s ! i \<or> fp_lt (s_f_best s' ! i) (s_f_best s ! i)"
  using sqp_step_best_loss [OF assms] by (simp split: if_splits)

lemma sqp_loop_best_loss_order:
  assumes "b \<or> batch_M D = 1" "batched C = b" "i < batch_M D"
  shows "sqp_loop T C D k s = Some (ev, Inr s') \<Longrightarrow>
         s_f_best s' ! i = s_f_best s ! i \<or> fp_lt (s_f_best s' ! i) (s_f_best s ! i)"
proof (induction k arbitrary: s ev)
  case 0
  then show ?case by simp
next
  case (Suc k)
  from Suc.prems obtain e1 s1 where st: "sqp_step T C D s = Some (e1, Inr s1)"
    by (auto split: option.splits sum.splits prod.splits if_splits)
  have o1: "s_f_best s1 ! i = s_f_best s ! i \<or> fp_lt (s_f_best s1 ! i) (s_f_best s ! i)"
    using sqp_step_best_loss_order [OF assms(1,2) st assms(3)] .
  show ?case
  proof (cases "fp_lt (s_imprv s1) imprv_tol")
    case True
    then have "s' = s1" using Suc.prems st by simp
    then show ?thesis using o1 by simp
  next
    case False
    then obtain e2 where l: "sqp_loop T C D k s1 = Some (e2, Inr s')"
      using Suc.prems st by (auto split: option.splits)
    have "s_f_best s' ! i = s_f_best s1 ! i \<or> fp_lt (s_f_best s' ! i) (s_f_best s1 ! i)"
      using Suc.IH [OF l] .
    then show ?thesis using o1 by (auto intro: fp_lt_trans)
  qed
qed

text \<open>
  Claim C5: in every iteration and for every batch row, the tracked best loss after the
  iteration is the line-search loss of that row if it is lower than the previous best
  and the previous best otherwise, independently of the other rows; so it is unchanged
  or strictly lower, never higher, from one iteration to the next and over any number of
  iterations.
\<close>

theorem best_loss_never_increases:
  assumes "sqp_dims (batched C) x0 = Inr D" and "i < batch_M D"
  shows "(sqp_step T C D s = Some (ev, Inr s') \<longrightarrow>
            s_f_best s' ! i =
              (if fp_lt (last (s_f_hist s') ! i) (s_f_best s ! i) then last (s_f_hist s') ! i
               else s_f_best s ! i) \<and>
            (s_f_best s' ! i = s_f_best s ! i \<or> fp_lt (s_f_best s' ! i) (s_f_best s ! i)) \<and>
            \<not> fp_lt (s_f_best s ! i) (s_f_best s' ! i)) \<and>
         (sqp_loop T C D k s = Some (evl, Inr sl) \<longrightarrow>
            (s_f_best sl ! i = s_f_best s ! i \<or> fp_lt (s_f_best sl ! i) (s_f_best s ! i)) \<and>
            \<not> fp_lt (s_f_best s ! i) (s_f_best sl ! i))"
proof -
  have r: "batched C \<or> batch_M D = 1" using sqp_dims_rows [OF assms(1)] .
  {
    assume st: "sqp_step T C D s = Some (ev, Inr s')"
    have a: "s_f_best s' ! i =
              (if fp_lt (last (s_f_hist s') ! i) (s_f_best s ! i) then last (s_f_hist s') ! i
               else s_f_best s ! i)"
      using sqp_step_best_loss [OF r refl st assms(2)] .
    have b: "s_f_best s' ! i = s_f_best s ! i \<or> fp_lt (s_f_best s' ! i) (s_f_best s ! i)"
      using sqp_step_best_loss_order [OF r refl st assms(2)] .
    have "\<not> fp_lt (s_f_best s ! i) (s_f_best s' ! i)"
      using b by (auto simp: fp_lt_irrefl dest: fp_lt_asym)
    note a b this
  }
  moreover
  {
    assume l: "sqp_loop T C D k s = Some (evl, Inr sl)"
    have b: "s_f_best sl ! i = s_f_best s ! i \<or> fp_lt (s_f_best sl ! i) (s_f_best s ! i)"
      using sqp_loop_best_loss_order [OF r refl assms(2) l] .
    have "\<not> fp_lt (s_f_best s ! i) (s_f_best sl ! i)"
      using b by (auto simp: fp_lt_irrefl dest: fp_lt_asym)
    note b this
  }
  ultimately show ?thesis by blast
qed

lemma quad_dims_unbatched: "sqp_dims (batched (quad_call False)) (Tensor [1] [Fin 0]) = Inr (quad_dims [1])"
  by (simp add: sqp_dims_def quad_call_def quad_dims_def numel_def)

lemma quad_dims_batched:
  "sqp_dims (batched (quad_call True)) (Tensor [1, 1] [Fin 0]) = Inr (quad_dims [1, 1])"
  by (simp add: sqp_dims_def quad_call_def quad_dims_def)

theorem best_loss_never_increases_witness:
  "sqp_dims (batched (quad_call True)) (Tensor [1, 1] [Fin 0]) = Inr (quad_dims [1, 1]) \<and>
   (0::nat) < batch_M (quad_dims [1, 1]) \<and>
   sqp_step torch_1x1 (quad_call True) (quad_dims [1, 1])
     (sqp_init (quad_call True) (Tensor [1, 1] [Fin 0])) =
     Some ([G_call (Tensor [1, 1] [Fin 0]), H_call (Tensor [1, 1] [Fin 0]),
            F_call (Tensor [1, 1] [Fin 2])],
           Inr \<lparr>s_x = Tensor [1, 1] [Fin 2], s_x_best = Tensor [1, 1] [Fin 2],
                s_f_best = [Fin 0],
                s_f_hist = [[Fin 2], [Fin 0]],
                s_x_hist = [Tensor [1, 1] [Fin 0], Tensor [1, 1] [Fin 2]],
                s_it = 1, s_imprv = Fin 2, s_bet = [Fin 1], s_d_norm = [Fin 2]\<rparr>) \<and>
   fp_lt ([Fin 0] ! 0) (s_f_best (sqp_init (quad_call True) (Tensor [1, 1] [Fin 0])) ! 0) \<and>
   \<not> fp_lt (s_f_best (sqp_init (quad_call True) (Tensor [1, 1] [Fin 0])) ! 0) ([Fin 0] ! 0)"
proof -
  have d: "(0::nat) < batch_M (quad_dims [1, 1])" by (simp add: quad_dims_def)
  have st: "sqp_step torch_1x1 (quad_call True) (quad_dims [1, 1])
     (sqp_init (quad_call True) (Tensor [1, 1] [Fin 0])) =
     Some ([G_call (Tensor [1, 1] [Fin 0]), H_call (Tensor [1, 1] [Fin 0]),
            F_call (Tensor [1, 1] [Fin 2])],
           Inr \<lparr>s_x = Tensor [1, 1] [Fin 2], s_x_best = Tensor [1, 1] [Fin 2],
                s_f_best = [Fin 0],
                s_f_hist = [[Fin 2], [Fin 0]],
                s_x_hist = [Tensor [1, 1] [Fin 0], Tensor [1, 1] [Fin 2]],
                s_it = 1, s_imprv = Fin 2, s_bet = [Fin 1], s_d_norm = [Fin 2]\<rparr>)"
    by (rule quad_step_1) simp_all
  note t = best_loss_never_increases [OF quad_dims_batched d, where T = torch_1x1
      and s = "sqp_init (quad_call True) (Tensor [1, 1] [Fin 0])" and k = 0
      and evl = "[]" and sl = "sqp_init (quad_call True) (Tensor [1, 1] [Fin 0])"
      and ev = "[G_call (Tensor [1, 1] [Fin 0]), H_call (Tensor [1, 1] [Fin 0]),
            F_call (Tensor [1, 1] [Fin 2])]"
      and s' = "\<lparr>s_x = Tensor [1, 1] [Fin 2], s_x_best = Tensor [1, 1] [Fin 2],
                s_f_best = [Fin 0],
                s_f_hist = [[Fin 2], [Fin 0]],
                s_x_hist = [Tensor [1, 1] [Fin 0], Tensor [1, 1] [Fin 2]],
                s_it = 1, s_imprv = Fin 2, s_bet = [Fin 1], s_d_norm = [Fin 2]\<rparr>"]
  have "fp_lt ([Fin 0] ! 0) (s_f_best (sqp_init (quad_call True) (Tensor [1, 1] [Fin 0])) ! 0) \<and>
   \<not> fp_lt (s_f_best (sqp_init (quad_call True) (Tensor [1, 1] [Fin 0])) ! 0) ([Fin 0] ! 0)"
    using t st by (simp add: sqp_init_def quad_call_def)
  then show ?thesis using quad_dims_batched d st by blast
qed

text \<open>
  Claim C9: with more than one optimization variable the call raises the input error
  before anything else happens: no caller-supplied function has been called (the event
  list is empty) and no local state exists.
\<close>

theorem several_variables_rejected:
  "1 < length args \<Longrightarrow>
   minimize_sqp T C args =
     Some ([], Inl (ValueError ''SQP only only supports single variable functions'')) \<and>
   sqp_run T C args =
     Some ([], Inl (ValueError ''SQP only only supports single variable functions''))"
  by (simp add: minimize_sqp_def sqp_run_def)

theorem several_variables_rejected_witness:
  "1 < length [Tensor [1] [Fin 0], Tensor [1] [Fin 1]] \<and>
   minimize_sqp torch_1x1 (quad_call False) [Tensor [1] [Fin 0], Tensor [1] [Fin 1]] =
     Some ([], Inl (ValueError ''SQP only only supports single variable functions''))"
  using several_variables_rejected
    [of "[Tensor [1] [Fin 0], Tensor [1] [Fin 1]]" torch_1x1 "quad_call False"]
  by simp

lemma minimize_sqp_single:
  assumes "sqp_dims (batched C) x0 = Inr D"
  shows "minimize_sqp T C [x0] =
           (case sqp_loop T C D (nat (max_it C)) (sqp_init C x0) of
              None \<Rightarrow> None
            | Some (ev, Inl e) \<Rightarrow> Some (init_events C x0 @ ev, Inl e)
            | Some (ev, Inr s) \<Rightarrow> Some (init_events C x0 @ ev, Inr (sqp_return C s)))"
  using assms by (simp add: minimize_sqp_def sqp_run_def split: option.splits sum.splits prod.splits)


text \<open>
  In batched mode on a point of shape \<open>(M,)\<close>, \<open>x_size\<close> is the float \<open>1.0\<close> and the first
  pass ends with the \<open>TypeError\<close> of the first \<open>reshape\<close>, the Hessian not evaluated,
  whatever the derivatives contain.  The runs after it are unbatched: the quadratic from
  a NaN point, where the gradient is NaN, and the quadratic with a NaN Hessian.
\<close>

lemma batched_flat_point_raises:
  assumes "batched C" and "shape x0 = [m]" and "0 < max_it C"
  shows "minimize_sqp T C [x0] = Some (init_events C x0 @ [G_call x0], Inl TypeError)"
proof -
  let ?D = "\<lparr>x_shape = [m], batch_M = m, x_size = 1, x_size_float = True\<rparr>"
  have d: "sqp_dims (batched C) x0 = Inr ?D" using assms(1,2) by (simp add: sqp_dims_def)
  obtain k where k: "nat (max_it C) = Suc k" using assms(3) by (cases "nat (max_it C)") auto
  have "sqp_step T C ?D (sqp_init C x0) = Some ([G_call x0], Inl TypeError)"
    by (simp add: sqp_step_def eval_derivatives_def sqp_init_def)
  then have "sqp_loop T C ?D (Suc k) (sqp_init C x0) = Some ([G_call x0], Inl TypeError)"
    by simp
  then show ?thesis
    by (simp only: minimize_sqp_single [OF d] k option.case prod.case sum.case)
qed


lemma sqp_reaches_Suc_Some:
  "sqp_reaches T C D (Suc j) s = Some (ev, s'') \<Longrightarrow>
   \<exists>e1 s1 e2. sqp_step T C D s = Some (e1, Inr s1) \<and> \<not> fp_lt (s_imprv s1) imprv_tol \<and>
      sqp_reaches T C D j s1 = Some (e2, s'') \<and> ev = e1 @ e2"
  by (auto split: option.splits sum.splits prod.splits if_splits)

lemma sqp_reaches_last_imprv:
  "sqp_reaches T C D (Suc n) s = Some (ev, s') \<Longrightarrow> \<not> fp_lt (s_imprv s') imprv_tol"
proof (induction n arbitrary: s ev)
  case 0
  then show ?case
    by (auto split: option.splits sum.splits prod.splits if_splits)
next
  case (Suc n)
  from sqp_reaches_Suc_Some [OF Suc.prems] obtain e1 s1 e2 where
    "sqp_reaches T C D (Suc n) s1 = Some (e2, s')" by blast
  then show ?case by (rule Suc.IH)
qed

lemma sqp_step_imprv:
  assumes "sqp_step T C D s = Some (ev, Inr s')"
  shows "\<exists>bd d. linesearch T (last (s_f_hist s)) (s_x s) d (f_fn C) (ls_pts_nb C) (force_step C)
                  = Inr (s_bet s', s_d_norm s', last (s_f_hist s')) \<and>
               bcast_mul (s_bet s') (s_d_norm s') = Inr bd \<and>
               s_imprv s' = fp_div_count (fp_sum bd) (length bd)"
proof -
  from assms obtain ev0 g H d bet dn ls_f x' bd xb fb where
    ls: "linesearch T (last (s_f_hist s)) (s_x s) d (f_fn C) (ls_pts_nb C) (force_step C)
       = Inr (bet, dn, ls_f)"
    and bm: "bcast_mul bet dn = Inr bd"
    and s': "s' = \<lparr>s_x = x', s_x_best = xb, s_f_best = fb, s_f_hist = s_f_hist s @ [ls_f],
           s_x_hist = s_x_hist s @ [x'], s_it = Suc (s_it s), s_imprv = torch_mean bd,
           s_bet = bet, s_d_norm = dn\<rparr>"
    by (rule sqp_step_Inr)
  show ?thesis using ls bm s' by (auto simp: torch_mean_def)
qed

lemma quad_reaches_1:
  "sqp_reaches torch_1x1 (quad_call False) (quad_dims [1]) 1
     (sqp_init (quad_call False) (Tensor [1] [Fin 0])) =
   Some ([G_call (Tensor [1] [Fin 0]), H_call (Tensor [1] [Fin 0]), F_call (Tensor [1] [Fin 2])],
         \<lparr>s_x = Tensor [1] [Fin 2], s_x_best = Tensor [1] [Fin 2],
                s_f_best = [Fin 0],
                s_f_hist = [[Fin 2], [Fin 0]],
                s_x_hist = [Tensor [1] [Fin 0], Tensor [1] [Fin 2]],
                s_it = 1, s_imprv = Fin 2, s_bet = [Fin 1], s_d_norm = [Fin 2]\<rparr>)"
proof -
  have st: "sqp_step torch_1x1 (quad_call False) (quad_dims [1])
              (sqp_init (quad_call False) (Tensor [1] [Fin 0])) =
     Some ([G_call (Tensor [1] [Fin 0]), H_call (Tensor [1] [Fin 0]), F_call (Tensor [1] [Fin 2])],
           Inr \<lparr>s_x = Tensor [1] [Fin 2], s_x_best = Tensor [1] [Fin 2],
                s_f_best = [Fin 0],
                s_f_hist = [[Fin 2], [Fin 0]],
                s_x_hist = [Tensor [1] [Fin 0], Tensor [1] [Fin 2]],
                s_it = 1, s_imprv = Fin 2, s_bet = [Fin 1], s_d_norm = [Fin 2]\<rparr>)"
    by (rule quad_step_1) simp_all
  have "sqp_reaches torch_1x1 (quad_call False) (quad_dims [1]) (Suc 0)
     (sqp_init (quad_call False) (Tensor [1] [Fin 0])) =
   Some ([G_call (Tensor [1] [Fin 0]), H_call (Tensor [1] [Fin 0]), F_call (Tensor [1] [Fin 2])],
         \<lparr>s_x = Tensor [1] [Fin 2], s_x_best = Tensor [1] [Fin 2],
                s_f_best = [Fin 0],
                s_f_hist = [[Fin 2], [Fin 0]],
                s_x_hist = [Tensor [1] [Fin 0], Tensor [1] [Fin 2]],
                s_it = 1, s_imprv = Fin 2, s_bet = [Fin 1], s_d_norm = [Fin 2]\<rparr>)"
    by (simp only: sqp_reaches.simps st option.case prod.case sum.case)
       (simp add: imprv_tol_def)
  then show ?thesis by simp
qed

subsection \<open>The convergence test\<close>

text \<open>
  The indicator \<open>imprv\<close> of an iteration is one number, the mean of the products of the
  steps and the direction norms the line search returned.  A call returns normally
  exactly in two ways: the loop made all \<open>max_it\<close> passes and after none of them was the
  indicator below \<open>1e-9\<close>, or it stopped right after the first pass whose indicator was
  below \<open>1e-9\<close>.  In both cases the value returned is the tracked best point.
\<close>

theorem convergence_test_stops_loop:
  assumes "sqp_dims (batched C) x0 = Inr D"
  shows "(minimize_sqp T C [x0] = Some (ev, Inr r) \<longleftrightarrow>
           (\<exists>evl sl. ev = init_events C x0 @ evl \<and> r = sqp_return C sl \<and>
              fst r = s_x_best sl \<and>
              (sqp_reaches T C D (nat (max_it C)) (sqp_init C x0) = Some (evl, sl) \<or>
               (\<exists>j<nat (max_it C). \<exists>eva sa evb.
                   sqp_reaches T C D j (sqp_init C x0) = Some (eva, sa) \<and>
                   sqp_step T C D sa = Some (evb, Inr sl) \<and>
                   fp_lt (s_imprv sl) imprv_tol \<and> evl = eva @ evb)))) \<and>
         (sqp_reaches T C D (Suc n) s = Some (evc, sc) \<longrightarrow> \<not> fp_lt (s_imprv sc) imprv_tol) \<and>
         (sqp_step T C D sp = Some (evd, Inr sd) \<longrightarrow>
            (\<exists>bd d. linesearch T (last (s_f_hist sp)) (s_x sp) d (f_fn C) (ls_pts_nb C)
                       (force_step C) = Inr (s_bet sd, s_d_norm sd, last (s_f_hist sd)) \<and>
               bcast_mul (s_bet sd) (s_d_norm sd) = Inr bd \<and>
               s_imprv sd = fp_div_count (fp_sum bd) (length bd))) \<and>
         imprv_tol = Fin (1 / 10 ^ 9)"
proof (intro conjI impI)
  let ?K = "nat (max_it C)"
  let ?s0 = "sqp_init C x0"
  let ?R = "\<exists>evl sl. ev = init_events C x0 @ evl \<and> r = sqp_return C sl \<and>
              fst r = s_x_best sl \<and>
              (sqp_reaches T C D ?K ?s0 = Some (evl, sl) \<or>
               (\<exists>j<?K. \<exists>eva sa evb.
                   sqp_reaches T C D j ?s0 = Some (eva, sa) \<and>
                   sqp_step T C D sa = Some (evb, Inr sl) \<and>
                   fp_lt (s_imprv sl) imprv_tol \<and> evl = eva @ evb))"
  show "minimize_sqp T C [x0] = Some (ev, Inr r) \<longleftrightarrow> ?R"
  proof
    assume m: "minimize_sqp T C [x0] = Some (ev, Inr r)"
    then obtain evl sl where l: "sqp_loop T C D ?K ?s0 = Some (evl, Inr sl)"
      and e: "ev = init_events C x0 @ evl" and rr: "r = sqp_return C sl"
      unfolding minimize_sqp_single [OF assms]
      by (auto split: option.splits sum.splits prod.splits)
    have f: "fst r = s_x_best sl" using rr by (simp add: sqp_return_def)
    from sqp_loop_Inr_cases [OF l] e rr f show ?R by blast
  next
    assume ?R
    then obtain evl sl where e: "ev = init_events C x0 @ evl" and rr: "r = sqp_return C sl"
      and c: "sqp_reaches T C D ?K ?s0 = Some (evl, sl) \<or>
               (\<exists>j<?K. \<exists>eva sa evb.
                   sqp_reaches T C D j ?s0 = Some (eva, sa) \<and>
                   sqp_step T C D sa = Some (evb, Inr sl) \<and>
                   fp_lt (s_imprv sl) imprv_tol \<and> evl = eva @ evb)"
      by blast
    from c have l: "sqp_loop T C D ?K ?s0 = Some (evl, Inr sl)"
    proof
      assume "sqp_reaches T C D ?K ?s0 = Some (evl, sl)"
      then show ?thesis by (rule sqp_loop_exhausted)
    next
      assume "\<exists>j<?K. \<exists>eva sa evb.
                   sqp_reaches T C D j ?s0 = Some (eva, sa) \<and>
                   sqp_step T C D sa = Some (evb, Inr sl) \<and>
                   fp_lt (s_imprv sl) imprv_tol \<and> evl = eva @ evb"
      then obtain j eva sa evb where "j < ?K" "sqp_reaches T C D j ?s0 = Some (eva, sa)"
        "sqp_step T C D sa = Some (evb, Inr sl)" "fp_lt (s_imprv sl) imprv_tol"
        "evl = eva @ evb" by blast
      then show ?thesis using sqp_loop_converged by simp
    qed
    show "minimize_sqp T C [x0] = Some (ev, Inr r)"
      by (simp only: minimize_sqp_single [OF assms] l e rr option.case prod.case sum.case)
  qed
next
  assume "sqp_reaches T C D (Suc n) s = Some (evc, sc)"
  then show "\<not> fp_lt (s_imprv sc) imprv_tol" by (rule sqp_reaches_last_imprv)
next
  assume "sqp_step T C D sp = Some (evd, Inr sd)"
  then show "\<exists>bd d. linesearch T (last (s_f_hist sp)) (s_x sp) d (f_fn C) (ls_pts_nb C)
                       (force_step C) = Inr (s_bet sd, s_d_norm sd, last (s_f_hist sd)) \<and>
               bcast_mul (s_bet sd) (s_d_norm sd) = Inr bd \<and>
               s_imprv sd = fp_div_count (fp_sum bd) (length bd)"
    by (rule sqp_step_imprv)
next
  show "imprv_tol = Fin (1 / 10 ^ 9)" by (simp add: imprv_tol_def)
qed






theorem convergence_test_stops_loop_witness:
  "sqp_dims (batched (quad_call False)) (Tensor [1] [Fin 0]) = Inr (quad_dims [1]) \<and>
   1 < nat (max_it (quad_call False)) \<and>
   sqp_reaches torch_1x1 (quad_call False) (quad_dims [1]) 1
     (sqp_init (quad_call False) (Tensor [1] [Fin 0])) =
   Some ([G_call (Tensor [1] [Fin 0]), H_call (Tensor [1] [Fin 0]), F_call (Tensor [1] [Fin 2])],
         \<lparr>s_x = Tensor [1] [Fin 2], s_x_best = Tensor [1] [Fin 2],
                s_f_best = [Fin 0],
                s_f_hist = [[Fin 2], [Fin 0]],
                s_x_hist = [Tensor [1] [Fin 0], Tensor [1] [Fin 2]],
                s_it = 1, s_imprv = Fin 2, s_bet = [Fin 1], s_d_norm = [Fin 2]\<rparr>) \<and>
   sqp_step torch_1x1 (quad_call False) (quad_dims [1])
     \<lparr>s_x = Tensor [1] [Fin 2], s_x_best = Tensor [1] [Fin 2],
                s_f_best = [Fin 0],
                s_f_hist = [[Fin 2], [Fin 0]],
                s_x_hist = [Tensor [1] [Fin 0], Tensor [1] [Fin 2]],
                s_it = 1, s_imprv = Fin 2, s_bet = [Fin 1], s_d_norm = [Fin 2]\<rparr> =
     Some ([G_call (Tensor [1] [Fin 2]), H_call (Tensor [1] [Fin 2]), F_call (Tensor [1] [Fin 2])],
           Inr \<lparr>s_x = Tensor [1] [Fin 2], s_x_best = Tensor [1] [Fin 2],
                s_f_best = [Fin 0],
                s_f_hist = [[Fin 2], [Fin 0], [Fin 0]],
                s_x_hist = [Tensor [1] [Fin 0], Tensor [1] [Fin 2], Tensor [1] [Fin 2]],
                s_it = 2, s_imprv = Fin 0, s_bet = [Fin 0], s_d_norm = [Fin 0]\<rparr>) \<and>
   fp_lt (Fin 0) imprv_tol \<and>
   minimize_sqp torch_1x1 (quad_call False) [Tensor [1] [Fin 0]] =
     Some (init_events (quad_call False) (Tensor [1] [Fin 0]) @
           [G_call (Tensor [1] [Fin 0]), H_call (Tensor [1] [Fin 0]), F_call (Tensor [1] [Fin 2])] @
           [G_call (Tensor [1] [Fin 2]), H_call (Tensor [1] [Fin 2]), F_call (Tensor [1] [Fin 2])],
           Inr (sqp_return (quad_call False)
                 \<lparr>s_x = Tensor [1] [Fin 2], s_x_best = Tensor [1] [Fin 2],
                s_f_best = [Fin 0],
                s_f_hist = [[Fin 2], [Fin 0], [Fin 0]],
                s_x_hist = [Tensor [1] [Fin 0], Tensor [1] [Fin 2], Tensor [1] [Fin 2]],
                s_it = 2, s_imprv = Fin 0, s_bet = [Fin 0], s_d_norm = [Fin 0]\<rparr>))"
proof -
  let ?x0 = "Tensor [1] [Fin 0]"
  let ?e1 = "[G_call (Tensor [1] [Fin 0]), H_call (Tensor [1] [Fin 0]), F_call (Tensor [1] [Fin 2])]"
  let ?e2 = "[G_call (Tensor [1] [Fin 2]), H_call (Tensor [1] [Fin 2]), F_call (Tensor [1] [Fin 2])]"
  let ?s1 = "\<lparr>s_x = Tensor [1] [Fin 2], s_x_best = Tensor [1] [Fin 2],
                s_f_best = [Fin 0],
                s_f_hist = [[Fin 2], [Fin 0]],
                s_x_hist = [Tensor [1] [Fin 0], Tensor [1] [Fin 2]],
                s_it = 1, s_imprv = Fin 2, s_bet = [Fin 1], s_d_norm = [Fin 2]\<rparr>"
  let ?s2 = "\<lparr>s_x = Tensor [1] [Fin 2], s_x_best = Tensor [1] [Fin 2],
                s_f_best = [Fin 0],
                s_f_hist = [[Fin 2], [Fin 0], [Fin 0]],
                s_x_hist = [Tensor [1] [Fin 0], Tensor [1] [Fin 2], Tensor [1] [Fin 2]],
                s_it = 2, s_imprv = Fin 0, s_bet = [Fin 0], s_d_norm = [Fin 0]\<rparr>"
  have k: "1 < nat (max_it (quad_call False))" by (simp add: quad_call_def)
  have st: "sqp_step torch_1x1 (quad_call False) (quad_dims [1]) ?s1 = Some (?e2, Inr ?s2)"
    by (rule quad_step_2) simp_all
  have lt: "fp_lt (Fin 0) imprv_tol" by (simp add: imprv_tol_def)
  then have lt': "fp_lt (s_imprv ?s2) imprv_tol" by simp
  have ex: "\<exists>evl sl. init_events (quad_call False) ?x0 @ ?e1 @ ?e2 =
              init_events (quad_call False) ?x0 @ evl \<and>
            sqp_return (quad_call False) ?s2 = sqp_return (quad_call False) sl \<and>
            fst (sqp_return (quad_call False) ?s2) = s_x_best sl \<and>
            (sqp_reaches torch_1x1 (quad_call False) (quad_dims [1])
               (nat (max_it (quad_call False))) (sqp_init (quad_call False) ?x0) = Some (evl, sl) \<or>
             (\<exists>j<nat (max_it (quad_call False)). \<exists>eva sa evb.
                 sqp_reaches torch_1x1 (quad_call False) (quad_dims [1]) j
                   (sqp_init (quad_call False) ?x0) = Some (eva, sa) \<and>
                 sqp_step torch_1x1 (quad_call False) (quad_dims [1]) sa = Some (evb, Inr sl) \<and>
                 fp_lt (s_imprv sl) imprv_tol \<and> evl = eva @ evb))"
  proof (intro exI conjI disjI2)
    show "init_events (quad_call False) ?x0 @ ?e1 @ ?e2 =
              init_events (quad_call False) ?x0 @ (?e1 @ ?e2)" by simp
    show "sqp_return (quad_call False) ?s2 = sqp_return (quad_call False) ?s2" by simp
    show "fst (sqp_return (quad_call False) ?s2) = s_x_best ?s2" by (simp add: sqp_return_def)
    show "1 < nat (max_it (quad_call False))" by (rule k)
    show "sqp_reaches torch_1x1 (quad_call False) (quad_dims [1]) 1
            (sqp_init (quad_call False) ?x0) = Some (?e1, ?s1)" by (rule quad_reaches_1)
    show "sqp_step torch_1x1 (quad_call False) (quad_dims [1]) ?s1 = Some (?e2, Inr ?s2)"
      by (rule st)
    show "fp_lt (s_imprv ?s2) imprv_tol" by (rule lt')
    show "?e1 @ ?e2 = ?e1 @ ?e2" by simp
  qed
  have m: "minimize_sqp torch_1x1 (quad_call False) [?x0] =
     Some (init_events (quad_call False) ?x0 @ ?e1 @ ?e2,
           Inr (sqp_return (quad_call False) ?s2))"
    using convergence_test_stops_loop [OF quad_dims_unbatched, where T = torch_1x1
        and ev = "init_events (quad_call False) ?x0 @ ?e1 @ ?e2"
        and r = "sqp_return (quad_call False) ?s2"] ex
    by blast
  show ?thesis using quad_dims_unbatched k quad_reaches_1 st lt m by blast
qed

text \<open>
  The value of the indicator on numbers: the products are taken entry by entry (one
  multiplier per row), summed and divided by their count.
\<close>

lemma fold_fp_add_Fin:
  "fold (\<lambda>v acc. fp_add acc v) (map Fin xs) (Fin a) = Fin (a + sum_list xs)"
  by (induction xs arbitrary: a) (simp_all add: add.assoc)

lemma torch_mean_numbers:
  "xs \<noteq> [] \<Longrightarrow> torch_mean (map Fin xs) = Fin (sum_list xs / real (length xs))"
  by (simp add: torch_mean_def fp_sum_def fold_fp_add_Fin)

lemma bcast_mul_numbers:
  "length bs = length ds \<Longrightarrow>
   bcast_mul (map Fin bs) (map Fin ds) = Inr (map Fin (map2 (*) bs ds))"
  by (induction bs ds rule: list_induct2) (simp_all add: bcast_mul_def)

lemma bcast_mul_single:
  "bcast_mul [Fin b] (map Fin ds) = Inr (map (\<lambda>v. Fin (b * v)) ds)"
  by (cases ds rule: list.exhaust) (auto simp: bcast_mul_def)

lemma sqp_step_imprv_numbers:
  assumes "sqp_step T C D s = Some (ev, Inr s')"
    and "s_bet s' = map Fin bs" and "s_d_norm s' = map Fin ds"
    and "length bs = length ds" and "bs \<noteq> []"
  shows "s_imprv s' = Fin (sum_list (map2 (*) bs ds) / real (length bs))"
proof -
  from sqp_step_imprv [OF assms(1)] obtain bd where
    bd: "bcast_mul (s_bet s') (s_d_norm s') = Inr bd"
    and im: "s_imprv s' = fp_div_count (fp_sum bd) (length bd)" by blast
  have "bd = map Fin (map2 (*) bs ds)"
    using bd bcast_mul_numbers [OF assms(4)] assms(2,3) by simp
  moreover have "map2 (*) bs ds \<noteq> []" using assms(4,5) by (cases bs; cases ds) auto
  ultimately show ?thesis
    using im torch_mean_numbers [of "map2 (*) bs ds"] assms(4)
    by (simp add: torch_mean_def)
qed

lemma imprv_two_rows:
  "bcast_mul [Fin (1 / 10), Fin 1] [Fin 2, Fin 3] = Inr [Fin (1 / 5), Fin 3] \<and>
   torch_mean [Fin (1 / 5), Fin 3] = Fin (8 / 5)"
  by (simp add: bcast_mul_def torch_mean_def fp_sum_def)

subsection \<open>Termination of the loop\<close>

text \<open>
  The loop makes at most \<open>max_it\<close> passes, so a call returns or raises whenever each pass
  does.  A pass ends whenever the regularizer does, and the regularizer ends from every
  positive initial shift: with a positive \<open>reg0\<close> and an eigenvalue estimate that is not
  NaN every call ends.
\<close>

lemma pinf_shift_terminates:
  "\<exists>res. positive_factorization_cholesky chol H PInf = Some res"
  unfolding positive_factorization_cholesky_def
  by (subst positive_factorization_cholesky_loop.simps)
     (simp add: fp_ge_def inf_times_def split: option.splits)

lemma initial_shift_positive:
  "0 < r0 \<Longrightarrow> \<not> isnan v \<Longrightarrow>
   (\<exists>r>0. initial_shift v (Fin r0) = Fin r) \<or> initial_shift v (Fin r0) = PInf"
  by (cases v) (auto simp: initial_shift_def py_max_def inf_times_def)

lemma regularizer_returns:
  assumes "0 < r0" and "\<And>v. min_eigenvalue_estimate T H = Inr v \<Longrightarrow> \<not> isnan v"
  shows "\<exists>res. positive_factorization_lobpcg T H (Fin r0) = Some res"
proof (cases "min_eigenvalue_estimate T H")
  case (Inl e)
  then show ?thesis by (simp add: positive_factorization_lobpcg_def)
next
  case (Inr v)
  then have "\<not> isnan v" by (rule assms(2))
  from initial_shift_positive [OF assms(1) this]
  have "\<exists>res. positive_factorization_cholesky (linalg_cholesky T) H (initial_shift v (Fin r0))
          = Some res"
    using positive_shift_terminates pinf_shift_terminates by metis
  then show ?thesis using Inr by (simp add: positive_factorization_lobpcg_def)
qed

lemma sqp_step_returns:
  assumes "reg0 C = Fin r0" and "0 < r0"
    and "\<And>H v. min_eigenvalue_estimate T H = Inr v \<Longrightarrow> \<not> isnan v"
  shows "\<exists>res. sqp_step T C D s = Some res"
proof -
  have "\<exists>res. newton_direction T (reg0 C) xs g H = Some res" for xs g H
    using regularizer_returns [OF assms(2), of T H] assms(1,3)
    by (auto simp: newton_direction_def split: sum.splits prod.splits)
  then have nd: "newton_direction T (reg0 C) xs g H \<noteq> None" for xs g H by simp
  show ?thesis
    unfolding sqp_step_def
    by (auto simp: nd split: prod.splits sum.splits option.splits)
qed

lemma sqp_loop_returns:
  assumes "\<And>s. \<exists>res. sqp_step T C D s = Some res"
  shows "\<exists>res. sqp_loop T C D k s = Some res"
proof (induction k arbitrary: s)
  case 0
  show ?case by simp
next
  case (Suc k)
  obtain ev r where st: "sqp_step T C D s = Some (ev, r)" using assms [of s] by auto
  show ?case
  proof (cases r)
    case (Inl e)
    then show ?thesis using st by simp
  next
    case (Inr s')
    obtain res where "sqp_loop T C D k s' = Some res" using Suc.IH by blast
    then show ?thesis using st Inr by (cases res) auto
  qed
qed

lemma minimize_sqp_returns:
  assumes "reg0 C = Fin r0" and "0 < r0"
    and "\<And>H v. min_eigenvalue_estimate T H = Inr v \<Longrightarrow> \<not> isnan v"
  shows "\<exists>res. minimize_sqp T C args = Some res"
proof -
  have "\<exists>res. sqp_loop T C D k s = Some res" for D k s
    by (rule sqp_loop_returns) (rule sqp_step_returns [OF assms])
  then have lp: "sqp_loop T C D k s \<noteq> None" for D k s by simp
  have "sqp_run T C args \<noteq> None"
    unfolding sqp_run_def
    by (auto simp: lp split: list.splits sum.splits option.splits prod.splits)
  then show ?thesis
    unfolding minimize_sqp_def by (auto split: option.splits sum.splits prod.splits)
qed

lemma stuck_at_zero_shift:
  "cholesky_attempt chol H (Fin 0) = None \<Longrightarrow>
   positive_factorization_cholesky chol H (Fin 0) = None"
  unfolding positive_factorization_cholesky_def
  using loop_stuck_at_zero [of chol H "Fin 0" 0]
  by (cases "positive_factorization_cholesky_loop chol H (Fin 0) 0") auto

lemma flat_step_never_returns:
  "sqp_step torch_1x1 flat_call
     \<lparr>x_shape = [1], batch_M = 1, x_size = 1, x_size_float = False\<rparr>
     (sqp_init flat_call (Tensor [1] [Fin 0])) = None"
proof -
  have a: "cholesky_attempt cholesky_1x1 (Tensor [1, 1, 1] [Fin 0]) (Fin 0) = None"
    by (simp add: cholesky_attempt_def add_diag_def cholesky_1x1_def)
  have r: "positive_factorization_lobpcg torch_1x1 (Tensor [1, 1, 1] [Fin 0]) (Fin 0) = None"
    using stuck_at_zero_shift [OF a]
    by (simp add: positive_factorization_lobpcg_def min_eigenvalue_estimate_def reshape_def
        numel_def torch_1x1_def torch_min_def initial_shift_def py_max_def)
  show ?thesis
    using r
    by (simp add: sqp_step_def eval_derivatives_def newton_direction_def sqp_init_def
        flat_call_def reshape_def numel_def any_nan_def)
qed

text \<open>
  Claim C6 (the loop stops when the indicator falls below \<open>1e-9\<close> and otherwise
  terminates by exhausting the iteration budget \<open>max_it\<close>, both outcomes returning the
  tracked best point) fails on the code: on the constant objective with \<open>reg0 = 0.0\<close>
  the first pass enters the regularizer with the shift \<open>0\<close> and a Hessian that has no
  Cholesky factor, and never ends.  The call neither stops on the indicator nor exhausts
  its \<open>100\<close> iterations, and returns nothing.
\<close>

theorem zero_hessian_run_never_returns:
  "minimize_sqp torch_1x1 flat_call [Tensor [1] [Fin 0]] = None"
proof -
  let ?D = "\<lparr>x_shape = [1], batch_M = 1, x_size = 1, x_size_float = False\<rparr>"
  have d: "sqp_dims (batched flat_call) (Tensor [1] [Fin 0]) = Inr ?D"
    by (simp add: sqp_dims_def flat_call_def numel_def)
  have k: "nat (max_it flat_call) = Suc 99" by (simp add: flat_call_def)
  have "sqp_loop torch_1x1 flat_call ?D (Suc 99) (sqp_init flat_call (Tensor [1] [Fin 0])) = None"
    by (simp only: sqp_loop.simps flat_step_never_returns option.case)
  then show ?thesis
    by (simp only: minimize_sqp_single [OF d] k option.case)
qed

subsection \<open>The value returned\<close>























end
